theory Spec2Isabelle
  imports Complex_Main "HOL-Library.AList"
begin

section \<open>Values of the VMC module\<close>

text \<open>
  The module \<^verbatim>\<open>backend/open_webui/utils/vmc.py\<close> works on JSON-like values. Python
  floats are modelled as \<^typ>\<open>real\<close> (rounding, infinities and NaN are outside the
  model), a quaternion \<^verbatim>\<open>[x, y, z, w]\<close> as a 4-tuple and a position as a triple. A
  Python dict is an association list in insertion order; \<^verbatim>\<open>d[k] = v\<close> is
  \<^const>\<open>AList.update\<close> (an existing key keeps its place, a new key goes last) and
  \<^verbatim>\<open>d.get(k, dflt)\<close> is \<open>dict_get\<close>. The keys of a dict are distinct; a
  comprehension over \<^verbatim>\<open>d.items()\<close> therefore maps over the entries.
\<close>

type_synonym quat = "real \<times> real \<times> real \<times> real"
type_synonym vec3 = "real \<times> real \<times> real"
type_synonym 'v dict = "(string \<times> 'v) list"

definition dict_get :: "'v dict \<Rightarrow> string \<Rightarrow> 'v \<Rightarrow> 'v" where
  "dict_get d k dflt = (case map_of d k of None \<Rightarrow> dflt | Some v \<Rightarrow> v)"

definition dict_keys :: "'v dict \<Rightarrow> string list" where
  "dict_keys d = map fst d"

text \<open>\<^verbatim>\<open>set(a) | set(b)\<close>: the names of both dicts, each once. Python leaves the
  iteration order of a set open; the model fixes one.\<close>

definition names_union :: "'a dict \<Rightarrow> 'b dict \<Rightarrow> string list" where
  "names_union a b = remdups (dict_keys a @ dict_keys b)"

text \<open>\<^verbatim>\<open>max(iterable, default=d)\<close>.\<close>

definition max_default :: "real list \<Rightarrow> real \<Rightarrow> real" where
  "max_default xs d = (case xs of [] \<Rightarrow> d | x # rest \<Rightarrow> fold max rest x)"

subsection \<open>Quaternion helpers\<close>

definition quat_identity :: quat where
  "quat_identity = (0, 0, 0, 1)"

fun quat_multiply :: "quat \<Rightarrow> quat \<Rightarrow> quat" where
  "quat_multiply (ax, ay, az, aw) (bx, by, bz, bw) =
     (aw * bx + ax * bw + ay * bz - az * by,
      aw * by - ax * bz + ay * bw + az * bx,
      aw * bz + ax * by - ay * bx + az * bw,
      aw * bw - ax * bx - ay * by - az * bz)"

fun quat_inverse :: "quat \<Rightarrow> quat" where
  "quat_inverse (x, y, z, w) = (- x, - y, - z, w)"

fun quat_normalize :: "quat \<Rightarrow> quat" where
  "quat_normalize (x, y, z, w) =
     (let mag = sqrt (x * x + y * y + z * z + w * w)
      in if mag < 1 / 10 ^ 10 then quat_identity
         else (x / mag, y / mag, z / mag, w / mag))"

subsection \<open>Blendshape clamping and eye-conflict resolution\<close>

definition EYE_BLINK_NAMES :: "string list" where
  "EYE_BLINK_NAMES =
     [''Blink'', ''Blink_L'', ''Blink_R'',
      ''BlinkLeft'', ''BlinkRight'',
      ''EyeBlinkLeft'', ''EyeBlinkRight'',
      ''eyeBlinkLeft'', ''eyeBlinkRight'']"

definition EXPRESSIONS_AFFECTING_EYES :: "string list" where
  "EXPRESSIONS_AFFECTING_EYES = [''Joy'', ''Angry'']"

text \<open>One pass of \<^verbatim>\<open>if name in result: result[name] = min(result[name], cap)\<close>.\<close>

definition cap_eye_blink :: "real \<Rightarrow> string \<Rightarrow> real dict \<Rightarrow> real dict" where
  "cap_eye_blink cap name result =
     (case map_of result name of
        None \<Rightarrow> result
      | Some v \<Rightarrow> AList.update name (min v cap) result)"

definition clamp_blendshapes :: "real dict \<Rightarrow> real dict" where
  "clamp_blendshapes bs =
     (let result = map (\<lambda>(k, v). (k, max 0 (min 1 v))) bs;
          expr_eye = max_default (map (\<lambda>n. dict_get result n 0) EXPRESSIONS_AFFECTING_EYES) 0
      in if expr_eye > 5 / 100
         then (let cap = max 0 (1 - expr_eye * (7 / 10))
               in fold (cap_eye_blink cap) EYE_BLINK_NAMES result)
         else result)"

section \<open>Frames, bones and errors\<close>

text \<open>
  A bone is a dict with the keys \<^verbatim>\<open>"pos"\<close> and \<^verbatim>\<open>"rot"\<close>, a frame a dict with the keys
  \<^verbatim>\<open>"t"\<close>, \<^verbatim>\<open>"blendshapes"\<close> and \<^verbatim>\<open>"bones"\<close>; a key may be missing, so every field
  is an option. A frame with no key at all is the empty dict, which Python treats as
  false. Exceptions are values of \<open>error\<close>.
\<close>

datatype error = KeyError | IndexError | FileNotFoundError | JSONDecodeError

record bone =
  pos :: "vec3 option"
  rot :: "quat option"

record frame =
  frame_t :: "int option"
  blendshapes :: "real dict option"
  bones :: "bone dict option"

definition empty_frame :: frame where
  "empty_frame = \<lparr>frame_t = None, blendshapes = None, bones = None\<rparr>"

text \<open>Truth value of a dict, and of an optional dict (\<^verbatim>\<open>if not idle\<close>).\<close>

definition frame_nonempty :: "frame \<Rightarrow> bool" where
  "frame_nonempty f = (frame_t f \<noteq> None \<or> blendshapes f \<noteq> None \<or> bones f \<noteq> None)"

definition truthy :: "frame option \<Rightarrow> bool" where
  "truthy fo = (case fo of None \<Rightarrow> False | Some f \<Rightarrow> frame_nonempty f)"

text \<open>\<^verbatim>\<open>f.get("blendshapes", {})\<close>, \<^verbatim>\<open>f.get("bones", {})\<close>, \<^verbatim>\<open>data.get("rot", [0, 0, 0, 1])\<close>
  and \<^verbatim>\<open>bones.get(name, {}).get("rot", [0, 0, 0, 1])\<close>.\<close>

definition get_blendshapes :: "frame \<Rightarrow> real dict" where
  "get_blendshapes f = (case blendshapes f of None \<Rightarrow> [] | Some m \<Rightarrow> m)"

definition get_bones :: "frame \<Rightarrow> bone dict" where
  "get_bones f = (case bones f of None \<Rightarrow> [] | Some m \<Rightarrow> m)"

definition get_rot :: "bone \<Rightarrow> quat" where
  "get_rot b = (case rot b of None \<Rightarrow> quat_identity | Some q \<Rightarrow> q)"

definition rot_of :: "bone dict \<Rightarrow> string \<Rightarrow> quat" where
  "rot_of bs name = (case map_of bs name of None \<Rightarrow> quat_identity | Some b \<Rightarrow> get_rot b)"

text \<open>\<^verbatim>\<open>result = {}; for name in names: result[name] = f(name)\<close>.\<close>

definition dict_from :: "string list \<Rightarrow> (string \<Rightarrow> 'v) \<Rightarrow> 'v dict" where
  "dict_from names f = fold (\<lambda>name d. AList.update name (f name) d) names []"

text \<open>\<^verbatim>\<open>d.update(e)\<close>.\<close>

definition dict_update :: "'v dict \<Rightarrow> 'v dict \<Rightarrow> 'v dict" where
  "dict_update d e = fold (\<lambda>(k, v) acc. AList.update k v acc) e d"

section \<open>Layer merging\<close>

definition merge_layers :: "frame option \<Rightarrow> frame option \<Rightarrow> frame option" where
  "merge_layers idle action =
     (if \<not> truthy action then idle
      else if \<not> truthy idle then action
      else
        (let i_bs = get_blendshapes (the idle);
             a_bs = get_blendshapes (the action);
             bs = dict_from (names_union i_bs a_bs)
                    (\<lambda>name. max 0 (min 1 (dict_get i_bs name 0 + dict_get a_bs name 0)));
             i_bones = get_bones (the idle);
             a_bones = get_bones (the action)
         in Some \<lparr>frame_t = None,
                  blendshapes = Some bs,
                  bones =
                    (if i_bones \<noteq> [] \<or> a_bones \<noteq> []
                     then Some (dict_from (names_union i_bones a_bones)
                            (\<lambda>name. \<lparr>pos = Some (0, 0, 0),
                                      rot = Some (quat_normalize
                                        (quat_multiply (rot_of i_bones name) (rot_of a_bones name)))\<rparr>))
                     else None)\<rparr>))"

definition merge_multiple_actions :: "frame option \<Rightarrow> frame list \<Rightarrow> frame option" where
  "merge_multiple_actions idle action_frames =
     (if action_frames = [] then idle
      else fold (\<lambda>action_frame result. merge_layers result (Some action_frame)) action_frames
             (if truthy idle then idle else Some empty_frame))"

section \<open>Relative frame conversion\<close>

text \<open>The body of the loop of \<^verbatim>\<open>convert_to_relative\<close>; \<^verbatim>\<open>frame["t"]\<close> raises KeyError
  on a frame without a time stamp.\<close>

definition relative_frame :: "frame \<Rightarrow> frame \<Rightarrow> error + frame" where
  "relative_frame ref fr =
     (case frame_t fr of
        None \<Rightarrow> Inl KeyError
      | Some t \<Rightarrow>
        (let ref_bs = get_blendshapes ref;
             ref_bones = get_bones ref;
             fbs = get_blendshapes fr;
             delta_bs = dict_from (names_union fbs ref_bs)
                          (\<lambda>name. dict_get fbs name 0 - dict_get ref_bs name 0);
             fbones = get_bones fr
         in Inr \<lparr>frame_t = Some t,
                 blendshapes = Some delta_bs,
                 bones =
                   (if fbones \<noteq> [] \<or> ref_bones \<noteq> []
                    then Some (dict_from (names_union fbones ref_bones)
                           (\<lambda>name. \<lparr>pos = Some (0, 0, 0),
                                     rot = Some (quat_normalize
                                       (quat_multiply (quat_inverse (rot_of ref_bones name))
                                          (rot_of fbones name)))\<rparr>))
                    else None)\<rparr>))"

fun relative_frames :: "frame \<Rightarrow> frame list \<Rightarrow> error + frame list" where
  "relative_frames ref [] = Inr []"
| "relative_frames ref (fr # rest) =
     (case relative_frame ref fr of
        Inl e \<Rightarrow> Inl e
      | Inr r \<Rightarrow> (case relative_frames ref rest of Inl e \<Rightarrow> Inl e | Inr rs \<Rightarrow> Inr (r # rs)))"

definition convert_to_relative :: "frame list \<Rightarrow> error + frame list" where
  "convert_to_relative frs =
     (case frs of [] \<Rightarrow> Inr frs | ref # _ \<Rightarrow> relative_frames ref frs)"

section \<open>Sender\<close>

text \<open>The OSC messages the sender emits. \<open>BonePos name px py pz rot\<close> is
  \<^verbatim>\<open>/VMC/Ext/Bone/Pos\<close> with its eight arguments. The rest pose that
  \<^verbatim>\<open>get_rest_pose()\<close> returns is a parameter of the sending functions.\<close>

datatype osc = BlendVal string real | BlendApply | BonePos string real real real quat

definition DEFAULT_REST_POSE :: "bone dict" where
  "DEFAULT_REST_POSE =
     [(''LeftUpperArm'', \<lparr>pos = Some (0, 0, 0), rot = Some (0, 0, 5736 / 10000, 8192 / 10000)\<rparr>),
      (''RightUpperArm'', \<lparr>pos = Some (0, 0, 0), rot = Some (0, 0, - (5736 / 10000), 8192 / 10000)\<rparr>),
      (''LeftLowerArm'', \<lparr>pos = Some (0, 0, 0), rot = Some (0, 0, 436 / 10000, 9990 / 10000)\<rparr>),
      (''RightLowerArm'', \<lparr>pos = Some (0, 0, 0), rot = Some (0, 0, - (436 / 10000), 9990 / 10000)\<rparr>)]"

text \<open>The loop over the bones that both \<^verbatim>\<open>send_frame\<close> and \<^verbatim>\<open>apply_rest_pose\<close> run:
  \<^verbatim>\<open>Hips\<close> is skipped, the position is sent as zero.\<close>

fun send_bone_loop :: "bone dict \<Rightarrow> osc list" where
  "send_bone_loop [] = []"
| "send_bone_loop ((name, data) # rest) =
     (if name = ''Hips'' then send_bone_loop rest
      else BonePos name 0 0 0 (get_rot data) # send_bone_loop rest)"

definition apply_rest_pose :: "bone dict \<Rightarrow> osc list" where
  "apply_rest_pose rest_pose = send_bone_loop rest_pose"

definition send_frame :: "bone dict \<Rightarrow> frame \<Rightarrow> bool \<Rightarrow> osc list" where
  "send_frame rest_pose fr include_bones =
     (let bs = clamp_blendshapes (get_blendshapes fr);
          merged_bones = (if include_bones then dict_update rest_pose (get_bones fr) else rest_pose)
      in map (\<lambda>(name, v). BlendVal name v) bs @ [BlendApply] @ send_bone_loop merged_bones)"

section \<open>Recorder\<close>

text \<open>
  The state of \<^verbatim>\<open>VMCRecorder\<close> that the message handlers read and write. The handlers
  run under one lock, so a handler is a function from state to state; the reading of
  \<^verbatim>\<open>time.perf_counter()\<close> that a handler takes is its argument \<open>now\<close>. The copies
  \<^verbatim>\<open>dict(...)\<close> that a snapshot takes are the values themselves.
\<close>

record recorder =
  recording :: bool
  rec_start_time :: real
  rec_frames :: "frame list"
  current_blendshapes :: "real dict"
  current_bones :: "bone dict"
  sample_interval :: real
  last_sample_time :: real

text \<open>\<^verbatim>\<open>int(x)\<close> on a float: the integer part, rounded towards zero.\<close>

definition py_int :: "real \<Rightarrow> int" where
  "py_int x = (if 0 \<le> x then \<lfloor>x\<rfloor> else \<lceil>x\<rceil>)"

definition new_recorder :: recorder where
  "new_recorder =
     \<lparr>recording = False, rec_start_time = 0, rec_frames = [], current_blendshapes = [],
      current_bones = [], sample_interval = 1 / 30, last_sample_time = 0\<rparr>"

text \<open>The handlers, for a message of the right arity whose arguments have been read.\<close>

definition on_blendshape :: "string \<Rightarrow> real \<Rightarrow> recorder \<Rightarrow> recorder" where
  "on_blendshape name v r = r\<lparr>current_blendshapes := AList.update name v (current_blendshapes r)\<rparr>"

definition on_bone :: "string \<Rightarrow> vec3 \<Rightarrow> quat \<Rightarrow> recorder \<Rightarrow> recorder" where
  "on_bone name p q r =
     r\<lparr>current_bones := AList.update name \<lparr>pos = Some p, rot = Some q\<rparr> (current_bones r)\<rparr>"

definition on_blendshape_apply :: "real \<Rightarrow> recorder \<Rightarrow> recorder" where
  "on_blendshape_apply now r =
     (if \<not> recording r then r
      else if now - last_sample_time r < sample_interval r then r
      else
        (let t_ms = py_int ((now - rec_start_time r) * 1000);
             fr = \<lparr>frame_t = Some t_ms,
                   blendshapes = Some (current_blendshapes r),
                   bones = (if current_bones r \<noteq> [] then Some (current_bones r) else None)\<rparr>
         in r\<lparr>rec_frames := rec_frames r @ [fr], last_sample_time := now\<rparr>))"

definition start_recording :: "real \<Rightarrow> recorder \<Rightarrow> recorder" where
  "start_recording now r =
     r\<lparr>rec_frames := [], current_blendshapes := [], current_bones := [],
       rec_start_time := now, last_sample_time := 0, recording := True\<rparr>"

text \<open>The messages the listener dispatches, and a run of the handlers over a list of them.
  A Blend/Apply message carries the clock reading its handler takes.\<close>

datatype rec_msg = MsgBlend string real | MsgBone string vec3 quat | MsgApply real

fun handle_msg :: "rec_msg \<Rightarrow> recorder \<Rightarrow> recorder" where
  "handle_msg (MsgBlend name v) r = on_blendshape name v r"
| "handle_msg (MsgBone name p q) r = on_bone name p q r"
| "handle_msg (MsgApply now) r = on_blendshape_apply now r"

section \<open>Preset files\<close>

text \<open>
  The presets directory is a dict from file name to file content. \<^verbatim>\<open>json.loads\<close> is a
  parameter: it returns the parsed preset or raises.
\<close>

definition preset_path :: "string \<Rightarrow> string" where
  "preset_path name = name @ ''.json''"

definition load_preset :: "('c \<Rightarrow> error + 'p) \<Rightarrow> 'c dict \<Rightarrow> string \<Rightarrow> error + 'p" where
  "load_preset json_loads dir name =
     (case map_of dir (preset_path name) of
        None \<Rightarrow> Inl FileNotFoundError
      | Some content \<Rightarrow> json_loads content)"

text \<open>\<^verbatim>\<open>delete_preset\<close> returns its boolean and the directory as it leaves it.\<close>

definition delete_preset :: "'c dict \<Rightarrow> string \<Rightarrow> error + (bool \<times> 'c dict)" where
  "delete_preset dir name =
     (if map_of dir (preset_path name) \<noteq> None
      then Inr (True, AList.delete (preset_path name) dir)
      else Inr (False, dir))"

section \<open>Player\<close>

subsection \<open>Frame helpers\<close>

text \<open>\<^verbatim>\<open>_find_frame\<close>: \<^verbatim>\<open>frames[0]\<close> raises IndexError on an empty list, \<^verbatim>\<open>f["t"]\<close>
  KeyError on a frame without a time stamp.\<close>

fun find_frame_loop :: "frame list \<Rightarrow> real \<Rightarrow> frame \<Rightarrow> error + frame" where
  "find_frame_loop [] target_ms best = Inr best"
| "find_frame_loop (f # fs) target_ms best =
     (case frame_t f of
        None \<Rightarrow> Inl KeyError
      | Some t \<Rightarrow> if real_of_int t \<le> target_ms then find_frame_loop fs target_ms f else Inr best)"

definition find_frame :: "frame list \<Rightarrow> real \<Rightarrow> error + frame" where
  "find_frame frs target_ms =
     (case frs of [] \<Rightarrow> Inl IndexError | f0 # _ \<Rightarrow> find_frame_loop frs target_ms f0)"

text \<open>The position in the list of the frame object that \<^verbatim>\<open>_find_frame\<close> returns, where it
  returns one: the loop of \<open>find_frame_loop\<close> with the index of \<open>best\<close> in place of \<open>best\<close>.\<close>

fun find_index_loop :: "frame list \<Rightarrow> real \<Rightarrow> nat \<Rightarrow> nat \<Rightarrow> nat" where
  "find_index_loop [] target_ms i best = best"
| "find_index_loop (f # fs) target_ms i best =
     (case frame_t f of
        None \<Rightarrow> best
      | Some t \<Rightarrow> if real_of_int t \<le> target_ms then find_index_loop fs target_ms (Suc i) i else best)"

definition find_frame_index :: "frame list \<Rightarrow> real \<Rightarrow> nat" where
  "find_frame_index frs target_ms = find_index_loop frs target_ms 0 0"

fun quat_dot :: "quat \<Rightarrow> quat \<Rightarrow> real" where
  "quat_dot (ax, ay, az, aw) (bx, by, bz, bw) = ax * bx + ay * by + az * bz + aw * bw"

fun quat_neg :: "quat \<Rightarrow> quat" where
  "quat_neg (x, y, z, w) = (- x, - y, - z, - w)"

fun quat_lerp :: "quat \<Rightarrow> quat \<Rightarrow> real \<Rightarrow> quat" where
  "quat_lerp (ax, ay, az, aw) (bx, by, bz, bw) t =
     (ax + (bx - ax) * t, ay + (by - ay) * t, az + (bz - az) * t, aw + (bw - aw) * t)"

definition blend_frames :: "frame \<Rightarrow> frame \<Rightarrow> real \<Rightarrow> frame" where
  "blend_frames a b t =
     (let a_bs = get_blendshapes a;
          b_bs = get_blendshapes b;
          bs = dict_from (names_union a_bs b_bs)
                 (\<lambda>name. let va = dict_get a_bs name 0; vb = dict_get b_bs name 0
                          in va + (vb - va) * t);
          a_bones = get_bones a;
          b_bones = get_bones b
      in \<lparr>frame_t = None,
          blendshapes = Some bs,
          bones =
            (if a_bones \<noteq> [] \<or> b_bones \<noteq> []
             then Some (dict_from (names_union a_bones b_bones)
                    (\<lambda>name. let ar = rot_of a_bones name;
                                 br = rot_of b_bones name;
                                 br' = (if quat_dot ar br < 0 then quat_neg br else br)
                             in \<lparr>pos = Some (0, 0, 0),
                                 rot = Some (quat_normalize (quat_lerp ar br' t))\<rparr>))
             else None)\<rparr>)"

subsection \<open>Layer sampling\<close>

text \<open>Python's \<^verbatim>\<open>x % d\<close> on floats, for a positive \<open>d\<close>.\<close>

definition py_fmod :: "real \<Rightarrow> real \<Rightarrow> real" where
  "py_fmod x d = x - d * of_int \<lfloor>x / d\<rfloor>"

definition CROSSFADE_MS :: real where
  "CROSSFADE_MS = 500"

text \<open>
  Which stored object a sampled or merged frame is. The render loop writes its clean-up
  entries into the merged frame in place, so it matters whether that dict is a fresh
  one, a stored idle frame (\<open>IdleFrame j\<close>: \<^verbatim>\<open>_find_frame\<close> returned \<^verbatim>\<open>frames[j]\<close>), the
  shallow copy \<^verbatim>\<open>dict(frames[0])\<close> of the first idle frame (\<open>IdleCopy\<close>: a new dict that
  shares the inner blendshape and bone dicts), or frame \<open>j\<close> of the active action at
  position \<open>k\<close> (\<open>ActionFrame k j\<close>). The frames of the stored clips are taken to be
  distinct objects, as they are when every clip is parsed from its own preset file.
\<close>

datatype frame_ref = Fresh | IdleCopy | IdleFrame nat | ActionFrame nat nat

definition get_idle_frame :: "frame list \<Rightarrow> real \<Rightarrow> error + (frame \<times> frame_ref) option" where
  "get_idle_frame frs elapsed_s =
     (if frs = [] then Inr None
      else case frame_t (last frs) of
        None \<Rightarrow> Inl KeyError
      | Some duration_ms \<Rightarrow>
          if duration_ms \<le> 0 then Inr (Some (hd frs, IdleCopy))
          else
            (let elapsed_ms = py_fmod (elapsed_s * 1000) (real_of_int duration_ms)
             in case find_frame frs elapsed_ms of
                  Inl e \<Rightarrow> Inl e
                | Inr current \<Rightarrow>
                    (let cf_ms = min CROSSFADE_MS (real_of_int duration_ms * (3 / 10))
                     in if cf_ms > 0 \<and> elapsed_ms > real_of_int duration_ms - cf_ms
                        then Inr (Some (blend_frames current (hd frs)
                               ((elapsed_ms - (real_of_int duration_ms - cf_ms)) / cf_ms), Fresh))
                        else Inr (Some (current, IdleFrame (find_frame_index frs elapsed_ms))))))"

text \<open>
  An active action. \<^verbatim>\<open>_get_active_action_frames\<close> reads the clock in every iteration of
  its loop: once for \<^verbatim>\<open>elapsed_ms\<close> and once more when it restarts a looping action. The
  model takes the readings as two functions of the loop index \<open>i\<close>: \<open>rd i\<close> is the reading
  for \<^verbatim>\<open>elapsed_ms\<close> and \<open>rs i\<close> the reading stored as the new \<^verbatim>\<open>start_time\<close>.
\<close>

record action =
  frames :: "frame list"
  loop :: bool
  start_time :: real

text \<open>A clock that reads the same instant in every iteration.\<close>

fun steady_clock :: "real \<Rightarrow> nat \<Rightarrow> real" where
  "steady_clock c i = c"

text \<open>The first loop: the actions with their updated start times, the sampled frames and
  the indices marked for removal.\<close>

fun scan_actions ::
  "(nat \<Rightarrow> real) \<Rightarrow> (nat \<Rightarrow> real) \<Rightarrow> nat \<Rightarrow> action list \<Rightarrow> error + (action list \<times> frame list \<times> nat list)"
where
  "scan_actions rd rs i [] = Inr ([], [], [])"
| "scan_actions rd rs i (a # rest) =
     (if frames a = [] then
        (case scan_actions rd rs (Suc i) rest of
           Inl e \<Rightarrow> Inl e
         | Inr (acts, active_frames, expired) \<Rightarrow> Inr (a # acts, active_frames, expired))
      else case frame_t (last (frames a)) of
        None \<Rightarrow> Inl KeyError
      | Some duration_ms \<Rightarrow>
          (let elapsed_ms = (rd i - start_time a) * 1000
           in if elapsed_ms \<ge> real_of_int duration_ms then
                (if loop a then
                   (case find_frame (frames a) 0 of
                      Inl e \<Rightarrow> Inl e
                    | Inr f \<Rightarrow>
                        (case scan_actions rd rs (Suc i) rest of
                           Inl e \<Rightarrow> Inl e
                         | Inr (acts, active_frames, expired) \<Rightarrow>
                             Inr (a\<lparr>start_time := rs i\<rparr> # acts, f # active_frames, expired)))
                 else
                   (case scan_actions rd rs (Suc i) rest of
                      Inl e \<Rightarrow> Inl e
                    | Inr (acts, active_frames, expired) \<Rightarrow>
                        Inr (a # acts, active_frames, i # expired)))
              else
                (case find_frame (frames a) elapsed_ms of
                   Inl e \<Rightarrow> Inl e
                 | Inr f \<Rightarrow>
                     (case scan_actions rd rs (Suc i) rest of
                        Inl e \<Rightarrow> Inl e
                      | Inr (acts, active_frames, expired) \<Rightarrow>
                          Inr (a # acts, f # active_frames, expired)))))"

text \<open>The second loop: \<^verbatim>\<open>for i in reversed(expired_indices): self._active_actions.pop(i)\<close>;
  \<^verbatim>\<open>pop\<close> raises IndexError on an index out of range.\<close>

fun pop_all :: "nat list \<Rightarrow> 'a list \<Rightarrow> error + 'a list" where
  "pop_all [] xs = Inr xs"
| "pop_all (i # others) xs =
     (if i < length xs then pop_all others (take i xs @ drop (Suc i) xs) else Inl IndexError)"

definition get_active_action_frames ::
  "(nat \<Rightarrow> real) \<Rightarrow> (nat \<Rightarrow> real) \<Rightarrow> action list \<Rightarrow> error + (action list \<times> frame list)"
where
  "get_active_action_frames rd rs acts =
     (case scan_actions rd rs 0 acts of
        Inl e \<Rightarrow> Inl e
      | Inr (acts', active_frames, expired) \<Rightarrow>
          (case pop_all (rev expired) acts' of
             Inl e \<Rightarrow> Inl e
           | Inr remaining \<Rightarrow> Inr (remaining, active_frames)))"

text \<open>
  Where the frames that \<^verbatim>\<open>_get_active_action_frames\<close> returns are stored: for each sampled
  frame, in order, the position \<open>k\<close> of its action in the list that is left and the
  position \<open>j\<close> of the frame in that action's clip. \<open>i\<close> runs over the positions before
  the removal (the index of the clock readings), \<open>k\<close> over the positions after it.
\<close>

fun sample_locs :: "(nat \<Rightarrow> real) \<Rightarrow> nat \<Rightarrow> nat \<Rightarrow> action list \<Rightarrow> (nat \<times> nat) list" where
  "sample_locs rd i k [] = []"
| "sample_locs rd i k (a # rest) =
     (if frames a = [] then sample_locs rd (Suc i) (Suc k) rest
      else case frame_t (last (frames a)) of
        None \<Rightarrow> []
      | Some duration_ms \<Rightarrow>
          (let elapsed_ms = (rd i - start_time a) * 1000
           in if elapsed_ms \<ge> real_of_int duration_ms then
                (if loop a
                 then (k, find_frame_index (frames a) 0) # sample_locs rd (Suc i) (Suc k) rest
                 else sample_locs rd (Suc i) k rest)
              else (k, find_frame_index (frames a) elapsed_ms) # sample_locs rd (Suc i) (Suc k) rest))"

subsection \<open>Player state and the render loop\<close>

text \<open>
  The state of \<^verbatim>\<open>VMCPlayer\<close>. The two dirty-name sets are lists without repetition;
  \<^verbatim>\<open>s.update(keys)\<close> is \<open>set_update\<close>. The model is sequential: no other thread changes
  the state while the render loop holds or releases its lock. Where the merged frame
  is a stored frame object, the entries that the clean-up writes into it are written
  into the stored clip as well (\<open>write_back\<close>).
\<close>

record player =
  idle_frames :: "frame list"
  idle_active :: bool
  idle_name :: string
  active_actions :: "action list"
  dirty_blendshapes :: "string list"
  dirty_bones :: "string list"
  running :: bool

definition new_player :: player where
  "new_player =
     \<lparr>idle_frames = [], idle_active = False, idle_name = [], active_actions = [],
      dirty_blendshapes = [], dirty_bones = [], running = False\<rparr>"

definition set_update :: "string list \<Rightarrow> string list \<Rightarrow> string list" where
  "set_update s ks = fold (\<lambda>k acc. if k \<in> set acc then acc else acc @ [k]) ks s"

text \<open>\<^verbatim>\<open>play_action\<close>; \<open>now\<close> is the clock reading stored as \<^verbatim>\<open>start_time\<close>.
  \<^verbatim>\<open>_ensure_thread\<close> leaves the render loop running.\<close>

definition play_action :: "frame list \<Rightarrow> bool \<Rightarrow> real \<Rightarrow> player \<Rightarrow> player" where
  "play_action frs lp now p =
     p\<lparr>active_actions := active_actions p @ [\<lparr>frames = frs, loop = lp, start_time = now\<rparr>],
       dirty_blendshapes :=
         fold (\<lambda>f s. set_update s (dict_keys (get_blendshapes f))) frs (dirty_blendshapes p),
       dirty_bones :=
         fold (\<lambda>f s. set_update s (dict_keys (get_bones f))) frs (dirty_bones p),
       running := True\<rparr>"

text \<open>\<^verbatim>\<open>_send_reset\<close>: the frames it sends (none or one) and the state it leaves.\<close>

definition reset_names :: "player \<Rightarrow> string list" where
  "reset_names p =
     (let names0 = set_update [] (dirty_blendshapes p);
          names1 = fold (\<lambda>a s. fold (\<lambda>f s'. set_update s' (dict_keys (get_blendshapes f))) (frames a) s)
                     (active_actions p) names0
      in fold (\<lambda>f s. set_update s (dict_keys (get_blendshapes f))) (idle_frames p) names1)"

definition send_reset :: "bone dict \<Rightarrow> player \<Rightarrow> player \<times> osc list list" where
  "send_reset rest_pose p =
     (let names = reset_names p;
          sent = (if names \<noteq> []
                  then [send_frame rest_pose
                          \<lparr>frame_t = None, blendshapes = Some (map (\<lambda>n. (n, 0)) names), bones = None\<rparr>
                          False]
                  else [])
      in (p\<lparr>dirty_blendshapes := [], dirty_bones := []\<rparr>, sent))"

text \<open>The dirty-name clean-up of the merged frame inside the render loop.\<close>

definition zero_dirty_blendshapes :: "string list \<Rightarrow> frame \<Rightarrow> frame" where
  "zero_dirty_blendshapes dirty merged =
     (if dirty \<noteq> []
      then merged\<lparr>blendshapes :=
             Some (fold (\<lambda>name bs. if name \<notin> set (dict_keys bs) then AList.update name 0 bs else bs)
                     dirty (get_blendshapes merged))\<rparr>
      else merged)"

definition identity_dirty_bones :: "string list \<Rightarrow> frame \<Rightarrow> frame" where
  "identity_dirty_bones dirty merged =
     (if dirty \<noteq> []
      then merged\<lparr>bones :=
             Some (fold (\<lambda>name bns.
                           if name \<notin> set (dict_keys bns) \<and> name \<noteq> ''Hips''
                           then AList.update name \<lparr>pos = Some (0, 0, 0), rot = Some quat_identity\<rparr> bns
                           else bns)
                     dirty (get_bones merged))\<rparr>
      else merged)"

text \<open>
  The object that \<^verbatim>\<open>_merge_multiple_actions\<close> returns. With no action frame it returns the
  idle frame itself. With action frames and an idle frame, every \<^verbatim>\<open>_merge_layers\<close> call
  builds a new dict. With no idle frame (absent or empty), the first \<^verbatim>\<open>_merge_layers\<close> call
  returns the first action frame itself, and a second call builds a new dict.
\<close>

definition merged_ref :: "(frame \<times> frame_ref) option \<Rightarrow> frame list \<Rightarrow> (nat \<times> nat) list \<Rightarrow> frame_ref" where
  "merged_ref idle_sample action_frames locs =
     (if action_frames = [] then (case idle_sample of None \<Rightarrow> Fresh | Some (f, al) \<Rightarrow> al)
      else if truthy (map_option fst idle_sample) then Fresh
      else (case locs of [(k, j)] \<Rightarrow> ActionFrame k j | _ \<Rightarrow> Fresh))"

text \<open>
  The stored clips after the clean-up has written into the merged frame, whose value
  is then \<open>m2\<close>. A stored frame that is the merged frame takes the value \<open>m2\<close>. Behind the
  shallow copy, the first idle frame keeps its keys; its blendshape dict and its bone
  dict, where it has them, are the dicts that were written into.
\<close>

definition write_back :: "frame_ref \<Rightarrow> frame \<Rightarrow> player \<Rightarrow> player" where
  "write_back al m2 p =
     (case al of
        Fresh \<Rightarrow> p
      | IdleFrame j \<Rightarrow> p\<lparr>idle_frames := (idle_frames p)[j := m2]\<rparr>
      | IdleCopy \<Rightarrow>
          (case idle_frames p of
             [] \<Rightarrow> p
           | f0 # rest \<Rightarrow>
               p\<lparr>idle_frames :=
                   f0\<lparr>blendshapes := (if blendshapes f0 \<noteq> None then blendshapes m2 else None),
                      bones := (if bones f0 \<noteq> None then bones m2 else None)\<rparr> # rest\<rparr>)
      | ActionFrame k j \<Rightarrow>
          (if k < length (active_actions p)
           then p\<lparr>active_actions :=
                   (active_actions p)
                     [k := (active_actions p ! k)\<lparr>frames := (frames (active_actions p ! k))[j := m2]\<rparr>]\<rparr>
           else p))"

text \<open>
  One iteration of the \<^verbatim>\<open>while\<close> loop of \<^verbatim>\<open>_render_loop\<close>. A tick carries the clock
  readings of the iteration: \<open>tick_t0\<close> is \<^verbatim>\<open>t0\<close>, \<open>tick_rd\<close> and \<open>tick_rs\<close> are the readings
  that \<^verbatim>\<open>_get_active_action_frames\<close> takes. The iteration breaks out of the loop, or goes
  on with a new state and the frame it sent, if it sent one.
\<close>

record tick =
  tick_t0 :: real
  tick_rd :: "nat \<Rightarrow> real"
  tick_rs :: "nat \<Rightarrow> real"

datatype step = Break | Continue player "osc list option"

definition render_step :: "bone dict \<Rightarrow> real \<Rightarrow> tick \<Rightarrow> player \<Rightarrow> error + step" where
  "render_step rest_pose idle_epoch tk p =
     (if \<not> idle_active p \<and> active_actions p = [] then Inr Break
      else
        case (if idle_active p \<and> idle_frames p \<noteq> []
              then get_idle_frame (idle_frames p) (tick_t0 tk - idle_epoch)
              else Inr None) of
          Inl e \<Rightarrow> Inl e
        | Inr idle_sample \<Rightarrow>
            (case get_active_action_frames (tick_rd tk) (tick_rs tk) (active_actions p) of
               Inl e \<Rightarrow> Inl e
             | Inr (acts, action_frames) \<Rightarrow>
                 (let p1 = p\<lparr>active_actions := acts\<rparr>;
                      idle_frame = map_option fst idle_sample;
                      merged = merge_multiple_actions idle_frame action_frames
                  in if truthy merged
                     then
                       (let m1 = zero_dirty_blendshapes (dirty_blendshapes p1) (the merged);
                            m2 = identity_dirty_bones (dirty_bones p1) m1;
                            al = merged_ref idle_sample action_frames
                                   (sample_locs (tick_rd tk) 0 0 (active_actions p));
                            p1' = write_back al m2 p1;
                            p2 = (if \<not> idle_active p1' \<and> active_actions p1' = []
                                  then p1'\<lparr>dirty_blendshapes := [], dirty_bones := []\<rparr>
                                  else p1');
                            has_bones = (get_bones m2 \<noteq> [])
                        in Inr (Continue p2 (Some (send_frame rest_pose m2 has_bones))))
                     else Inr (Continue p1 None))))"

text \<open>
  The render loop over the ticks that are observed. It returns the final state, the
  frames sent in order, and whether the loop has ended: when it ends it calls
  \<^verbatim>\<open>_send_reset\<close> and clears \<^verbatim>\<open>_running\<close>. With no tick left the loop is still running.
\<close>

definition finish_loop :: "bone dict \<Rightarrow> player \<Rightarrow> player \<times> osc list list \<times> bool" where
  "finish_loop rest_pose p =
     (case send_reset rest_pose p of (p', sent) \<Rightarrow> (p'\<lparr>running := False\<rparr>, sent, True))"

fun render_loop ::
  "bone dict \<Rightarrow> real \<Rightarrow> tick list \<Rightarrow> player \<Rightarrow> error + (player \<times> osc list list \<times> bool)"
where
  "render_loop rest_pose idle_epoch [] p =
     (if \<not> running p then Inr (finish_loop rest_pose p) else Inr (p, [], False))"
| "render_loop rest_pose idle_epoch (tk # tks) p =
     (if \<not> running p then Inr (finish_loop rest_pose p)
      else case render_step rest_pose idle_epoch tk p of
        Inl e \<Rightarrow> Inl e
      | Inr Break \<Rightarrow> Inr (finish_loop rest_pose p)
      | Inr (Continue p' sent) \<Rightarrow>
          (case render_loop rest_pose idle_epoch tks p' of
             Inl e \<Rightarrow> Inl e
           | Inr (q, later, ended) \<Rightarrow>
               Inr (q, (case sent of None \<Rightarrow> [] | Some msgs \<Rightarrow> [msgs]) @ later, ended)))"

subsection \<open>The action list after a tick, as the specification describes it\<close>

text \<open>
  The specification's reading of \<^verbatim>\<open>_get_active_action_frames\<close>, against which the loops
  above are compared. An action at position \<open>i\<close> has finished when its clip is not empty
  and the elapsed milliseconds have reached the \<^verbatim>\<open>t\<close> of its last frame. A finished action
  is removed unless it loops; a finished looping action restarts with the start time
  \<open>rs i\<close> and is sampled at elapsed 0; every other action with a non-empty clip is sampled
  at its elapsed time.
\<close>

definition finished :: "(nat \<Rightarrow> real) \<Rightarrow> nat \<Rightarrow> action \<Rightarrow> bool" where
  "finished rd i a =
     (frames a \<noteq> [] \<and>
      (case frame_t (last (frames a)) of
         None \<Rightarrow> False
       | Some duration_ms \<Rightarrow> (rd i - start_time a) * 1000 \<ge> real_of_int duration_ms))"

definition kept_actions :: "(nat \<Rightarrow> real) \<Rightarrow> (nat \<Rightarrow> real) \<Rightarrow> nat \<Rightarrow> action list \<Rightarrow> action list" where
  "kept_actions rd rs i0 acts =
     [if finished rd i a then a\<lparr>start_time := rs i\<rparr> else a.
        (i, a) \<leftarrow> enumerate i0 acts, \<not> (finished rd i a \<and> \<not> loop a)]"

definition sampled_frames :: "(nat \<Rightarrow> real) \<Rightarrow> nat \<Rightarrow> action list \<Rightarrow> (error + frame) list" where
  "sampled_frames rd i0 acts =
     [find_frame (frames a) (if finished rd i a then 0 else (rd i - start_time a) * 1000).
        (i, a) \<leftarrow> enumerate i0 acts, frames a \<noteq> [] \<and> \<not> (finished rd i a \<and> \<not> loop a)]"

chapter \<open>Properties\<close>

section \<open>Lemmas on dicts\<close>

lemma map_of_dict_from:
  "map_of (dict_from names f) k = (if k \<in> set names then Some (f k) else None)"
proof -
  have "map_of (fold (\<lambda>name d. AList.update name (f name) d) names d0) k =
          (if k \<in> set names then Some (f k) else map_of d0 k)" for d0
    by (induction names arbitrary: d0) (auto simp: update_conv')
  then show ?thesis by (simp add: dict_from_def)
qed

lemma keys_dict_from: "set (dict_keys (dict_from names f)) = set names"
proof -
  have "fst ` set (dict_from names f) = dom (map_of (dict_from names f))"
    by (simp add: dom_map_of_conv_image_fst)
  also have "\<dots> = set names"
    by (auto simp: map_of_dict_from dom_def)
  finally show ?thesis by (simp add: dict_keys_def)
qed

lemma set_names_union: "set (names_union a b) = set (dict_keys a) \<union> set (dict_keys b)"
  by (simp add: names_union_def)

lemma in_dict_from:
  assumes "(k, v) \<in> set (dict_from names f)"
  shows "k \<in> set names \<and> v = f k"
proof -
  have "distinct (map fst (fold (\<lambda>name d. AList.update name (f name) d) names d0))"
    if "distinct (map fst d0)" for d0 :: "(string \<times> 'a) list"
    using that by (induction names arbitrary: d0) (simp_all add: distinct_update)
  then have "distinct (map fst (dict_from names f))"
    by (simp add: dict_from_def)
  with assms have "map_of (dict_from names f) k = Some v"
    by simp
  then show ?thesis
    by (simp add: map_of_dict_from split: if_splits)
qed

section \<open>The blendshape sanitizer\<close>

lemma keys_cap_eye_blink: "dict_keys (cap_eye_blink cap name r) = dict_keys r"
  by (auto simp: cap_eye_blink_def dict_keys_def update_keys map_of_eq_None_iff split: option.splits
      intro!: map_idI)

lemma keys_fold_cap: "dict_keys (fold (cap_eye_blink cap) names r) = dict_keys r"
  by (induction names arbitrary: r) (simp_all add: keys_cap_eye_blink)

lemma keys_clamped: "dict_keys (map (\<lambda>(k, v). (k, f v)) bs) = dict_keys bs"
  by (induction bs) (auto simp: dict_keys_def)

lemma map_of_cap_eye_blink:
  "map_of (cap_eye_blink cap name r) k =
     (if k = name then map_option (\<lambda>v. min v cap) (map_of r k) else map_of r k)"
  by (auto simp: cap_eye_blink_def update_conv' split: option.splits)

lemma map_of_fold_cap:
  "map_of (fold (cap_eye_blink cap) names r) k =
     (if k \<in> set names then map_option (\<lambda>v. min v cap) (map_of r k) else map_of r k)"
proof (induction names arbitrary: r)
  case Nil
  show ?case by simp
next
  case (Cons n ns)
  show ?case
    by (cases "map_of r k") (auto simp: Cons.IH map_of_cap_eye_blink)
qed

lemma map_of_clamped:
  "map_of (map (\<lambda>(k, v). (k, f v)) bs) k = map_option f (map_of bs k)"
  by (induction bs) auto

lemma values_cap_eye_blink:
  assumes "\<forall>(k, v) \<in> set r. 0 \<le> v \<and> v \<le> 1" "0 \<le> cap"
  shows "\<forall>(k, v) \<in> set (cap_eye_blink cap name r). 0 \<le> v \<and> v \<le> (1::real)"
proof -
  have "\<forall>(k, v) \<in> set (AList.update name (min w cap) r). 0 \<le> v \<and> v \<le> 1"
    if "map_of r name = Some w" for w
  proof -
    from that have "(name, w) \<in> set r" by (rule map_of_SomeD)
    with assms have w: "0 \<le> w" "w \<le> 1" by auto
    have "set (AList.update name (min w cap) r) \<subseteq> insert (name, min w cap) (set r)"
      by (induction r) auto
    with assms w show ?thesis by (auto simp: min_def)
  qed
  with assms show ?thesis by (auto simp: cap_eye_blink_def split: option.splits)
qed

lemma values_fold_cap:
  assumes "\<forall>(k, v) \<in> set r. 0 \<le> v \<and> v \<le> 1" "0 \<le> cap"
  shows "\<forall>(k, v) \<in> set (fold (cap_eye_blink cap) names r). 0 \<le> v \<and> v \<le> (1::real)"
  using assms
proof (induction names arbitrary: r)
  case Nil
  then show ?case by simp
next
  case (Cons n ns)
  from Cons.prems have "\<forall>(k, v) \<in> set (cap_eye_blink cap n r). 0 \<le> v \<and> v \<le> 1"
    by (rule values_cap_eye_blink)
  from Cons.IH[OF this Cons.prems(2)] show ?case by simp
qed

text \<open>
  Claim C2. For every input map the sanitizer returns a map whose values all lie in
  \<open>[0, 1]\<close>. With \<open>E\<close> the larger of the clamped values of \<^verbatim>\<open>Joy\<close> and \<^verbatim>\<open>Angry\<close>
  (a missing key counts as 0): when \<open>E > 0.05\<close>, a present name of the nine eye-blink
  names gets \<open>min (clamped value) (max 0 (1 - 0.7 * E))\<close>; every other entry keeps its
  clamped value; a name absent from the input is absent from the output.
\<close>

theorem clamp_blendshapes_spec:
  "(\<forall>(k, v) \<in> set (clamp_blendshapes bs). 0 \<le> v \<and> v \<le> 1) \<and>
   (let joy = (case map_of bs ''Joy'' of None \<Rightarrow> 0 | Some v \<Rightarrow> max 0 (min 1 v));
        angry = (case map_of bs ''Angry'' of None \<Rightarrow> 0 | Some v \<Rightarrow> max 0 (min 1 v));
        E = max joy angry
    in map_of (clamp_blendshapes bs) k =
         map_option
           (\<lambda>v. if E > 5 / 100 \<and> k \<in> set EYE_BLINK_NAMES
                then min (max 0 (min 1 v)) (max 0 (1 - 7 / 10 * E))
                else max 0 (min 1 v))
           (map_of bs k))"
proof -
  define result where "result = map (\<lambda>(k, v). (k, max 0 (min 1 v))) bs"
  define E where "E = max_default (map (\<lambda>n. dict_get result n 0) EXPRESSIONS_AFFECTING_EYES) 0"
  have res: "\<forall>(k, v) \<in> set result. 0 \<le> v \<and> v \<le> (1::real)"
    by (auto simp: result_def)
  have E_eq: "E = max (case map_of bs ''Joy'' of None \<Rightarrow> 0 | Some v \<Rightarrow> max 0 (min 1 v))
                      (case map_of bs ''Angry'' of None \<Rightarrow> 0 | Some v \<Rightarrow> max 0 (min 1 v))"
    by (simp add: E_def max_default_def EXPRESSIONS_AFFECTING_EYES_def dict_get_def result_def
        map_of_clamped max.commute split: option.splits)
  have cb: "clamp_blendshapes bs =
      (if E > 5 / 100 then fold (cap_eye_blink (max 0 (1 - E * (7 / 10)))) EYE_BLINK_NAMES result
       else result)"
    by (simp add: clamp_blendshapes_def Let_def result_def E_def)
  have 1: "\<forall>(k, v) \<in> set (clamp_blendshapes bs). 0 \<le> v \<and> v \<le> 1"
    unfolding cb using res values_fold_cap[OF res, of "max 0 (1 - E * (7 / 10))" EYE_BLINK_NAMES]
    by simp
  have 2: "map_of (clamp_blendshapes bs) k =
         map_option
           (\<lambda>v. if E > 5 / 100 \<and> k \<in> set EYE_BLINK_NAMES
                then min (max 0 (min 1 v)) (max 0 (1 - 7 / 10 * E))
                else max 0 (min 1 v))
           (map_of bs k)"
    unfolding cb
    by (cases "map_of bs k") (simp_all add: map_of_fold_cap result_def map_of_clamped mult.commute)
  show ?thesis using 1 2 unfolding Let_def E_eq by simp
qed

text \<open>Scenario S2 of the specification: \<^verbatim>\<open>Joy = 1\<close> caps \<^verbatim>\<open>EyeBlinkLeft = 1\<close> at 0.3.\<close>

theorem clamp_blendshapes_spec_witness:
  "map_of (clamp_blendshapes [(''Joy'', 1), (''EyeBlinkLeft'', 1)]) ''EyeBlinkLeft'' = Some (3 / 10) \<and>
   map_of (clamp_blendshapes [(''Joy'', 1), (''EyeBlinkLeft'', 1)]) ''Joy'' = Some 1"
  using clamp_blendshapes_spec[of "[(''Joy'', 1), (''EyeBlinkLeft'', 1)]" "''EyeBlinkLeft''"]
    clamp_blendshapes_spec[of "[(''Joy'', 1), (''EyeBlinkLeft'', 1)]" "''Joy''"]
  by (simp add: EYE_BLINK_NAMES_def Let_def)

text \<open>
  Claim C10. The sanitizer's output has exactly the key set of its input (the keys even
  keep their order): clamping and eye-blink capping change values only.
\<close>

theorem clamp_blendshapes_same_keys:
  "set (dict_keys (clamp_blendshapes bs)) = set (dict_keys bs) \<and>
   dict_keys (clamp_blendshapes bs) = dict_keys bs"
  by (simp add: clamp_blendshapes_def Let_def keys_fold_cap keys_clamped)

theorem clamp_blendshapes_same_keys_witness:
  "dict_keys (clamp_blendshapes [(''Joy'', 2), (''Blink'', 1), (''A'', - 1)]) = [''Joy'', ''Blink'', ''A'']"
  using clamp_blendshapes_same_keys[of "[(''Joy'', 2), (''Blink'', 1), (''A'', - 1)]"]
  by (simp add: dict_keys_def)

section \<open>Quaternions and layer merging\<close>

lemma quat_multiply_identity:
  "quat_multiply quat_identity q = q" "quat_multiply q quat_identity = q"
  by (cases q; simp add: quat_identity_def)+

lemma quat_multiply_assoc:
  "quat_multiply (quat_multiply a b) c = quat_multiply a (quat_multiply b c)"
  by (cases a; cases b; cases c) (simp add: algebra_simps)

lemma quat_inverse_multiply:
  "quat_normalize (quat_multiply (quat_inverse q) q) = quat_identity"
proof -
  obtain x y z w where q: "q = (x, y, z, w)" by (cases q)
  define s where "s = w * w + x * x + y * y + z * z"
  have s0: "0 \<le> s" by (simp add: s_def)
  have prod: "quat_multiply (quat_inverse q) q = (0, 0, 0, s)"
    by (simp add: q s_def algebra_simps)
  have mag: "sqrt (0 * 0 + 0 * 0 + 0 * 0 + s * s) = s"
    using s0 by simp
  show ?thesis
    unfolding prod using s0 by (auto simp: Let_def quat_identity_def)
qed

text \<open>
  Claim C1. Merging a non-empty idle frame with an action delta frame (a frame that
  carries at least one key, as every sampled frame carries \<^verbatim>\<open>"t"\<close>) yields a frame whose
  blendshape map has the union of both key sets and gives each name
  \<open>clamp (idle + delta) 0 1\<close>, a missing value counting as 0; whose bone map has the union of
  both bone key sets and gives each name the rotation
  \<open>normalize (idle_rot * delta_rot)\<close>, a missing rotation counting as the identity, and the
  position \<open>(0, 0, 0)\<close>. The rotation is also written out: with \<open>p\<close> the Hamilton product
  of the idle rotation and the delta rotation in this order, it is \<open>p\<close> divided by its
  magnitude, and the identity when the magnitude is below \<open>1e-10\<close>. Folding a list of
  action frames starts from the idle frame and applies this merge to the frames in
  insertion order; with no action frame the result is the idle frame.
\<close>

theorem merge_layers_spec:
  assumes "frame_nonempty idle" and "frame_nonempty action"
  shows "\<exists>m. merge_layers (Some idle) (Some action) = Some m \<and>
     set (dict_keys (get_blendshapes m)) =
       set (dict_keys (get_blendshapes idle)) \<union> set (dict_keys (get_blendshapes action)) \<and>
     (\<forall>name \<in> set (dict_keys (get_blendshapes idle)) \<union> set (dict_keys (get_blendshapes action)).
        map_of (get_blendshapes m) name =
          Some (max 0 (min 1 (dict_get (get_blendshapes idle) name 0
                              + dict_get (get_blendshapes action) name 0)))) \<and>
     set (dict_keys (get_bones m)) =
       set (dict_keys (get_bones idle)) \<union> set (dict_keys (get_bones action)) \<and>
     (\<forall>name \<in> set (dict_keys (get_bones idle)) \<union> set (dict_keys (get_bones action)).
        map_of (get_bones m) name =
          Some \<lparr>pos = Some (0, 0, 0),
                rot = Some (quat_normalize
                  (quat_multiply (rot_of (get_bones idle) name) (rot_of (get_bones action) name)))\<rparr>) \<and>
     (\<forall>name \<in> set (dict_keys (get_bones idle)) \<union> set (dict_keys (get_bones action)).
        (case (case map_of (get_bones idle) name of
                 None \<Rightarrow> (0, 0, 0, 1)
               | Some b \<Rightarrow> (case rot b of None \<Rightarrow> (0, 0, 0, 1) | Some q \<Rightarrow> q)) of
           (ax, ay, az, aw) \<Rightarrow>
             (case (case map_of (get_bones action) name of
                      None \<Rightarrow> (0, 0, 0, 1)
                    | Some b \<Rightarrow> (case rot b of None \<Rightarrow> (0, 0, 0, 1) | Some q \<Rightarrow> q)) of
                (bx, by, bz, bw) \<Rightarrow>
                  (let px = aw * bx + ax * bw + ay * bz - az * by;
                       py = aw * by - ax * bz + ay * bw + az * bx;
                       pz = aw * bz + ax * by - ay * bx + az * bw;
                       pw = aw * bw - ax * bx - ay * by - az * bz;
                       mag = sqrt (px * px + py * py + pz * pz + pw * pw)
                   in map_of (get_bones m) name =
                        Some \<lparr>pos = Some (0, 0, 0),
                              rot = Some (if mag < 1 / 10 ^ 10 then (0, 0, 0, 1)
                                          else (px / mag, py / mag, pz / mag, pw / mag))\<rparr>)))) \<and>
     merge_multiple_actions (Some idle) (afs @ [action]) =
       merge_layers (merge_multiple_actions (Some idle) afs) (Some action) \<and>
     merge_multiple_actions (Some idle) [] = Some idle \<and>
     merge_multiple_actions (Some idle) afs =
       foldl (\<lambda>result action_frame. merge_layers result (Some action_frame)) (Some idle) afs"
proof -
  define m where "m = the (merge_layers (Some idle) (Some action))"
  have eq: "merge_layers (Some idle) (Some action) = Some m"
    using assms by (simp add: m_def merge_layers_def truthy_def Let_def)
  have bs: "get_blendshapes m =
      dict_from (names_union (get_blendshapes idle) (get_blendshapes action))
        (\<lambda>name. max 0 (min 1 (dict_get (get_blendshapes idle) name 0
                              + dict_get (get_blendshapes action) name 0)))"
    using assms by (simp add: m_def merge_layers_def truthy_def Let_def get_blendshapes_def)
  have bones_ne: "get_bones m =
      dict_from (names_union (get_bones idle) (get_bones action))
        (\<lambda>name. \<lparr>pos = Some (0, 0, 0),
                  rot = Some (quat_normalize
                    (quat_multiply (rot_of (get_bones idle) name) (rot_of (get_bones action) name)))\<rparr>)"
  proof (cases "get_bones idle \<noteq> [] \<or> get_bones action \<noteq> []")
    case True
    then show ?thesis
      using assms by (simp add: m_def merge_layers_def truthy_def Let_def get_bones_def)
  next
    case False
    then have "get_bones m = []"
      using assms by (simp add: m_def merge_layers_def truthy_def Let_def get_bones_def)
    with False show ?thesis
      by (simp add: names_union_def dict_keys_def dict_from_def)
  qed
  have rot_clause: "map_of (get_bones m) name =
          Some \<lparr>pos = Some (0, 0, 0),
                rot = Some (quat_normalize
                  (quat_multiply (rot_of (get_bones idle) name) (rot_of (get_bones action) name)))\<rparr>"
    if "name \<in> set (dict_keys (get_bones idle)) \<union> set (dict_keys (get_bones action))" for name
    using that by (simp add: bones_ne map_of_dict_from set_names_union)
  have explicit: "(case (case map_of (get_bones idle) name of
                 None \<Rightarrow> (0, 0, 0, 1)
               | Some b \<Rightarrow> (case rot b of None \<Rightarrow> (0, 0, 0, 1) | Some q \<Rightarrow> q)) of
           (ax, ay, az, aw) \<Rightarrow>
             (case (case map_of (get_bones action) name of
                      None \<Rightarrow> (0, 0, 0, 1)
                    | Some b \<Rightarrow> (case rot b of None \<Rightarrow> (0, 0, 0, 1) | Some q \<Rightarrow> q)) of
                (bx, by, bz, bw) \<Rightarrow>
                  (let px = aw * bx + ax * bw + ay * bz - az * by;
                       py = aw * by - ax * bz + ay * bw + az * bx;
                       pz = aw * bz + ax * by - ay * bx + az * bw;
                       pw = aw * bw - ax * bx - ay * by - az * bz;
                       mag = sqrt (px * px + py * py + pz * pz + pw * pw)
                   in map_of (get_bones m) name =
                        Some \<lparr>pos = Some (0, 0, 0),
                              rot = Some (if mag < 1 / 10 ^ 10 then (0, 0, 0, 1)
                                          else (px / mag, py / mag, pz / mag, pw / mag))\<rparr>)))"
    if "name \<in> set (dict_keys (get_bones idle)) \<union> set (dict_keys (get_bones action))" for name
  proof -
    obtain ax ay az aw where ia: "rot_of (get_bones idle) name = (ax, ay, az, aw)"
      by (cases "rot_of (get_bones idle) name")
    obtain bx "by" bz bw where ib: "rot_of (get_bones action) name = (bx, by, bz, bw)"
      by (cases "rot_of (get_bones action) name")
    have ia': "(case map_of (get_bones idle) name of
                 None \<Rightarrow> (0, 0, 0, 1)
               | Some b \<Rightarrow> (case rot b of None \<Rightarrow> (0, 0, 0, 1) | Some q \<Rightarrow> q)) = (ax, ay, az, aw)"
      unfolding ia[symmetric]
      by (simp add: rot_of_def get_rot_def quat_identity_def split: option.splits)
    have ib': "(case map_of (get_bones action) name of
                 None \<Rightarrow> (0, 0, 0, 1)
               | Some b \<Rightarrow> (case rot b of None \<Rightarrow> (0, 0, 0, 1) | Some q \<Rightarrow> q)) = (bx, by, bz, bw)"
      unfolding ib[symmetric]
      by (simp add: rot_of_def get_rot_def quat_identity_def split: option.splits)
    show ?thesis
      unfolding ia' ib' using rot_clause[OF that]
      by (simp add: ia ib Let_def quat_identity_def)
  qed
  have fold_eq: "merge_multiple_actions (Some idle) (afs @ [action]) =
       merge_layers (merge_multiple_actions (Some idle) afs) (Some action)"
    using assms by (simp add: merge_multiple_actions_def truthy_def)
  have base: "merge_multiple_actions (Some idle) [] = Some idle"
    by (simp add: merge_multiple_actions_def)
  have whole: "merge_multiple_actions (Some idle) afs =
       foldl (\<lambda>result action_frame. merge_layers result (Some action_frame)) (Some idle) afs"
    using assms(1) by (simp add: merge_multiple_actions_def truthy_def foldl_conv_fold)
  show ?thesis
    apply (rule exI[of _ m])
    apply (intro conjI ballI)
            apply (rule eq)
           apply (simp add: bs keys_dict_from set_names_union)
          apply (simp add: bs map_of_dict_from set_names_union)
         apply (simp add: bones_ne keys_dict_from set_names_union)
        apply (erule rot_clause)
       apply (erule explicit)
      apply (rule fold_eq)
     apply (rule base)
    apply (rule whole)
    done
qed

lemma get_blendshapes_mk:
  "get_blendshapes \<lparr>frame_t = t, blendshapes = Some b, bones = c\<rparr> = b"
  "get_blendshapes \<lparr>frame_t = t, blendshapes = None, bones = c\<rparr> = []"
  by (simp_all add: get_blendshapes_def)

lemma get_bones_mk:
  "get_bones \<lparr>frame_t = t, blendshapes = b, bones = Some c\<rparr> = c"
  "get_bones \<lparr>frame_t = t, blendshapes = b, bones = None\<rparr> = []"
  by (simp_all add: get_bones_def)

theorem merge_layers_spec_witness:
  "\<exists>m. merge_layers
     (Some \<lparr>frame_t = Some 0, blendshapes = Some [(''Joy'', 1 / 2)],
            bones = Some [(''Head'', \<lparr>pos = Some (1, 2, 3), rot = Some (2, 0, 0, 0)\<rparr>)]\<rparr>)
     (Some \<lparr>frame_t = Some 0, blendshapes = Some [(''Joy'', 7 / 10), (''Fun'', - 1)],
            bones = Some [(''Head'', \<lparr>pos = Some (4, 5, 6), rot = Some (0, 1, 0, 0)\<rparr>)]\<rparr>) = Some m \<and>
     map_of (get_blendshapes m) ''Joy'' = Some 1 \<and>
     map_of (get_blendshapes m) ''Fun'' = Some 0 \<and>
     map_of (get_bones m) ''Head'' = Some \<lparr>pos = Some (0, 0, 0), rot = Some (0, 0, 1, 0)\<rparr> \<and>
     merge_multiple_actions
       (Some \<lparr>frame_t = Some 0, blendshapes = Some [(''Joy'', 1 / 2)],
              bones = Some [(''Head'', \<lparr>pos = Some (1, 2, 3), rot = Some (2, 0, 0, 0)\<rparr>)]\<rparr>)
       [\<lparr>frame_t = Some 0, blendshapes = Some [(''Joy'', 7 / 10), (''Fun'', - 1)],
         bones = Some [(''Head'', \<lparr>pos = Some (4, 5, 6), rot = Some (0, 1, 0, 0)\<rparr>)]\<rparr>] = Some m"
proof -
  let ?i = "\<lparr>frame_t = Some 0, blendshapes = Some [(''Joy'', 1 / 2)],
            bones = Some [(''Head'', \<lparr>pos = Some (1, 2, 3), rot = Some (2, 0, 0, 0)\<rparr>)]\<rparr>"
  let ?a = "\<lparr>frame_t = Some 0, blendshapes = Some [(''Joy'', 7 / 10), (''Fun'', - 1)],
            bones = Some [(''Head'', \<lparr>pos = Some (4, 5, 6), rot = Some (0, 1, 0, 0)\<rparr>)]\<rparr>"
  let ?get = "\<lambda>fr name. case map_of (get_bones fr) name of
                 None \<Rightarrow> (0, 0, 0, 1 :: real)
               | Some b \<Rightarrow> (case rot b of None \<Rightarrow> (0, 0, 0, 1) | Some q \<Rightarrow> q)"
  have i: "frame_nonempty ?i" and a: "frame_nonempty ?a"
    by (simp_all add: frame_nonempty_def)
  from merge_layers_spec[OF i a, of "[?a]"] obtain m where
    m: "merge_layers (Some ?i) (Some ?a) = Some m"
    and bs: "\<forall>name \<in> set (dict_keys (get_blendshapes ?i)) \<union> set (dict_keys (get_blendshapes ?a)).
        map_of (get_blendshapes m) name =
          Some (max 0 (min 1 (dict_get (get_blendshapes ?i) name 0
                              + dict_get (get_blendshapes ?a) name 0)))"
    and bn: "\<forall>name \<in> set (dict_keys (get_bones ?i)) \<union> set (dict_keys (get_bones ?a)).
        (case ?get ?i name of
           (ax, ay, az, aw) \<Rightarrow>
             (case ?get ?a name of
                (bx, by, bz, bw) \<Rightarrow>
                  (let px = aw * bx + ax * bw + ay * bz - az * by;
                       py = aw * by - ax * bz + ay * bw + az * bx;
                       pz = aw * bz + ax * by - ay * bx + az * bw;
                       pw = aw * bw - ax * bx - ay * by - az * bz;
                       mag = sqrt (px * px + py * py + pz * pz + pw * pw)
                   in map_of (get_bones m) name =
                        Some \<lparr>pos = Some (0, 0, 0),
                              rot = Some (if mag < 1 / 10 ^ 10 then (0, 0, 0, 1)
                                          else (px / mag, py / mag, pz / mag, pw / mag))\<rparr>)))"
    and whole: "merge_multiple_actions (Some ?i) [?a] =
       foldl (\<lambda>result action_frame. merge_layers result (Some action_frame)) (Some ?i) [?a]"
    by (elim exE conjE)
  from bs have joy: "map_of (get_blendshapes m) ''Joy'' = Some 1"
    and funv: "map_of (get_blendshapes m) ''Fun'' = Some 0"
    by (simp_all add: get_blendshapes_mk dict_keys_def dict_get_def)
  from bn have head: "map_of (get_bones m) ''Head'' =
      Some \<lparr>pos = Some (0, 0, 0), rot = Some (0, 0, 1, 0)\<rparr>"
    by (simp add: get_bones_mk dict_keys_def Let_def)
  from whole m have mm: "merge_multiple_actions (Some ?i) [?a] = Some m"
    by simp
  from m joy funv head mm show ?thesis by (intro exI conjI)
qed

text \<open>
  Claim C8, as the code has it. With no idle frame (absent or the empty dict), the merge of
  a list of action frames whose first frame is non-empty uses that first frame as it is,
  neither clamped nor normalised and with its positions kept, as the base; the later
  action frames fold onto it by the idle+delta rule of \<open>merge_layers\<close>.
\<close>

theorem merge_no_idle_uses_first_action_as_is:
  assumes "\<not> truthy idle" and "frame_nonempty a"
  shows "merge_multiple_actions idle [a] = Some a \<and>
         merge_multiple_actions idle (a # afs) =
           fold (\<lambda>action_frame result. merge_layers result (Some action_frame)) afs (Some a)"
proof -
  have "merge_layers (Some empty_frame) (Some a) = Some a"
    using assms(2) by (simp add: merge_layers_def truthy_def empty_frame_def frame_nonempty_def)
  then show ?thesis
    using assms(1) by (simp add: merge_multiple_actions_def)
qed

theorem merge_no_idle_uses_first_action_as_is_witness:
  "merge_multiple_actions None
     [\<lparr>frame_t = Some 0, blendshapes = Some [(''Joy'', 3 / 2)], bones = None\<rparr>] =
   Some \<lparr>frame_t = Some 0, blendshapes = Some [(''Joy'', 3 / 2)], bones = None\<rparr>"
proof -
  have 1: "\<not> truthy None" by (simp add: truthy_def)
  have 2: "frame_nonempty \<lparr>frame_t = Some 0, blendshapes = Some [(''Joy'', 3 / 2)], bones = None\<rparr>"
    by (simp add: frame_nonempty_def)
  from merge_no_idle_uses_first_action_as_is[OF 1 2, of "[]"] show ?thesis by simp
qed

text \<open>
  Claim C8 as stated fails: with no idle, a single action frame with \<^verbatim>\<open>Joy = 1.5\<close> and a
  \<^verbatim>\<open>Head\<close> bone of rotation \<open>(0, 0, 0, 2)\<close> at position \<open>(1, 2, 3)\<close> is returned
  unchanged: the value is not clamped into \<open>[0, 1]\<close>, the rotation is not normalised
  and the position is not zeroed.
\<close>

theorem merge_no_idle_counterexample:
  "merge_multiple_actions None
     [\<lparr>frame_t = Some 0, blendshapes = Some [(''Joy'', 3 / 2)],
       bones = Some [(''Head'', \<lparr>pos = Some (1, 2, 3), rot = Some (0, 0, 0, 2)\<rparr>)]\<rparr>] =
   Some \<lparr>frame_t = Some 0, blendshapes = Some [(''Joy'', 3 / 2)],
         bones = Some [(''Head'', \<lparr>pos = Some (1, 2, 3), rot = Some (0, 0, 0, 2)\<rparr>)]\<rparr> \<and>
   \<not> (3 / 2 \<le> (1::real)) \<and>
   quat_normalize (0, 0, 0, 2) \<noteq> (0, 0, 0, 2) \<and>
   (1, 2, 3) \<noteq> (0, 0, 0 :: real)"
  by (simp add: merge_multiple_actions_def merge_layers_def truthy_def frame_nonempty_def
      empty_frame_def quat_identity_def Let_def)


section \<open>Relative conversion\<close>

lemma relative_frames_total:
  assumes "\<forall>f \<in> set frs. frame_t f \<noteq> None"
  shows "\<exists>out. relative_frames ref frs = Inr out \<and> length out = length frs"
  using assms
proof (induction frs)
  case Nil
  show ?case by simp
next
  case (Cons f frs)
  then obtain out where out: "relative_frames ref frs = Inr out" "length out = length frs"
    by auto
  from Cons.prems obtain t where "frame_t f = Some t" by auto
  then obtain r where "relative_frame ref f = Inr r"
    by (simp add: relative_frame_def Let_def)
  with out show ?case by simp
qed

text \<open>
  Claim C5. For a non-empty clip whose frames all carry \<^verbatim>\<open>"t"\<close>, \<open>convert_to_relative\<close>
  returns a clip of the same length whose first frame has the first input frame's \<^verbatim>\<open>t\<close>,
  the same blendshape names, each with delta 0, and the same bone names, each with
  rotation exactly \<open>(0, 0, 0, 1)\<close> and position \<open>(0, 0, 0)\<close>.
\<close>

theorem convert_to_relative_first_frame:
  assumes "\<forall>f \<in> set (f0 # rest). frame_t f \<noteq> None"
  shows "\<exists>r0 rs. convert_to_relative (f0 # rest) = Inr (r0 # rs) \<and>
     length rs = length rest \<and>
     frame_t r0 = frame_t f0 \<and>
     set (dict_keys (get_blendshapes r0)) = set (dict_keys (get_blendshapes f0)) \<and>
     (\<forall>(name, v) \<in> set (get_blendshapes r0). v = 0) \<and>
     set (dict_keys (get_bones r0)) = set (dict_keys (get_bones f0)) \<and>
     (\<forall>(name, b) \<in> set (get_bones r0). rot b = Some (0, 0, 0, 1) \<and> pos b = Some (0, 0, 0))"
proof -
  from assms obtain t where t: "frame_t f0 = Some t" by auto
  from assms have "\<forall>f \<in> set rest. frame_t f \<noteq> None" by simp
  from relative_frames_total[OF this, of f0] obtain rs where
    rs: "relative_frames f0 rest = Inr rs" "length rs = length rest"
    by blast
  define r0 where "r0 = \<lparr>frame_t = Some t,
       blendshapes = Some (dict_from (names_union (get_blendshapes f0) (get_blendshapes f0))
          (\<lambda>name. dict_get (get_blendshapes f0) name 0 - dict_get (get_blendshapes f0) name 0)),
       bones = (if get_bones f0 \<noteq> []
          then Some (dict_from (names_union (get_bones f0) (get_bones f0))
             (\<lambda>name. \<lparr>pos = Some (0, 0, 0),
                       rot = Some (quat_normalize
                         (quat_multiply (quat_inverse (rot_of (get_bones f0) name))
                            (rot_of (get_bones f0) name)))\<rparr>))
          else None)\<rparr>"
  have rf: "relative_frame f0 f0 = Inr r0"
    by (simp add: relative_frame_def t Let_def r0_def)
  have conv: "convert_to_relative (f0 # rest) = Inr (r0 # rs)"
    by (simp add: convert_to_relative_def rf rs)
  have bs: "get_blendshapes r0 = dict_from (names_union (get_blendshapes f0) (get_blendshapes f0))
          (\<lambda>name. 0)"
    by (simp add: r0_def get_blendshapes_def)
  have bones: "get_bones r0 = dict_from (names_union (get_bones f0) (get_bones f0))
          (\<lambda>name. \<lparr>pos = Some (0, 0, 0), rot = Some (0, 0, 0, 1)\<rparr>)"
  proof (cases "get_bones f0 = []")
    case True
    then show ?thesis
      by (simp add: r0_def get_bones_def names_union_def dict_keys_def dict_from_def)
  next
    case False
    then have "get_bones r0 = dict_from (names_union (get_bones f0) (get_bones f0))
             (\<lambda>name. \<lparr>pos = Some (0, 0, 0),
                       rot = Some (quat_normalize
                         (quat_multiply (quat_inverse (rot_of (get_bones f0) name))
                            (rot_of (get_bones f0) name)))\<rparr>)"
      by (simp add: r0_def get_bones_def)
    then show ?thesis
      by (simp add: quat_inverse_multiply quat_identity_def)
  qed
  have v0: "\<forall>(name, v) \<in> set (get_blendshapes r0). v = 0"
    unfolding bs by (auto dest: in_dict_from)
  have b0: "\<forall>(name, b) \<in> set (get_bones r0). rot b = Some (0, 0, 0, 1) \<and> pos b = Some (0, 0, 0)"
    unfolding bones by (auto dest: in_dict_from)
  have k1: "set (dict_keys (get_blendshapes r0)) = set (dict_keys (get_blendshapes f0))"
    by (simp add: bs keys_dict_from set_names_union)
  have k2: "set (dict_keys (get_bones r0)) = set (dict_keys (get_bones f0))"
    by (simp add: bones keys_dict_from set_names_union)
  have t0: "frame_t r0 = frame_t f0"
    by (simp add: r0_def t)
  from conv rs(2) t0 k1 v0 k2 b0 show ?thesis by blast
qed

theorem convert_to_relative_first_frame_witness:
  "\<exists>r0 rs. convert_to_relative
      [\<lparr>frame_t = Some 12, blendshapes = Some [(''Joy'', 1)],
        bones = Some [(''Head'', \<lparr>pos = Some (1, 2, 3), rot = Some (0, 3 / 5, 0, 4 / 5)\<rparr>)]\<rparr>,
       \<lparr>frame_t = Some 52, blendshapes = Some [(''Joy'', 1 / 2)], bones = None\<rparr>] = Inr (r0 # rs) \<and>
     length rs = 1 \<and> frame_t r0 = Some 12 \<and>
     set (dict_keys (get_blendshapes r0)) = {''Joy''} \<and>
     set (dict_keys (get_bones r0)) = {''Head''}"
proof -
  let ?f0 = "\<lparr>frame_t = Some 12, blendshapes = Some [(''Joy'', 1)],
        bones = Some [(''Head'', \<lparr>pos = Some (1, 2, 3), rot = Some (0, 3 / 5, 0, 4 / 5)\<rparr>)]\<rparr>"
  let ?f1 = "\<lparr>frame_t = Some 52, blendshapes = Some [(''Joy'', 1 / 2)], bones = None\<rparr>"
  have h: "\<forall>f \<in> set (?f0 # [?f1]). frame_t f \<noteq> None" by simp
  from convert_to_relative_first_frame[OF h] obtain r0 rs where
    c: "convert_to_relative (?f0 # [?f1]) = Inr (r0 # rs)"
    and l: "length rs = length [?f1]"
    and t: "frame_t r0 = frame_t ?f0"
    and k1: "set (dict_keys (get_blendshapes r0)) = set (dict_keys (get_blendshapes ?f0))"
    and k2: "set (dict_keys (get_bones r0)) = set (dict_keys (get_bones ?f0))"
    by (elim exE conjE)
  from l have l': "length rs = 1" by simp
  from t have t': "frame_t r0 = Some 12" by simp
  from k1 have k1': "set (dict_keys (get_blendshapes r0)) = {''Joy''}"
    by (simp add: get_blendshapes_mk dict_keys_def)
  from k2 have k2': "set (dict_keys (get_bones r0)) = {''Head''}"
    by (simp add: get_bones_mk dict_keys_def)
  from c l' t' k1' k2' show ?thesis by (intro exI conjI)
qed

section \<open>Hips suppression\<close>

lemma send_bone_loop_no_hips: "BonePos ''Hips'' px py pz q \<notin> set (send_bone_loop bs)"
  by (induction bs rule: send_bone_loop.induct) auto

text \<open>
  Claim C6. Whatever the frame, the rest pose and the \<^verbatim>\<open>include_bones\<close> flag,
  \<open>send_frame\<close> emits no \<^verbatim>\<open>/VMC/Ext/Bone/Pos\<close> message named \<^verbatim>\<open>Hips\<close>, and neither does
  \<open>apply_rest_pose\<close>.
\<close>

theorem hips_never_sent:
  "BonePos ''Hips'' px py pz q \<notin> set (send_frame rest_pose fr include_bones) \<and>
   BonePos ''Hips'' px py pz q \<notin> set (apply_rest_pose rest_pose)"
  by (auto simp: send_frame_def apply_rest_pose_def send_bone_loop_no_hips Let_def)

theorem hips_never_sent_witness:
  "BonePos ''Hips'' 0 0 0 (0, 0, 0, 1) \<notin>
     set (send_frame [(''Hips'', \<lparr>pos = None, rot = None\<rparr>)]
           \<lparr>frame_t = Some 0, blendshapes = None,
            bones = Some [(''Hips'', \<lparr>pos = None, rot = Some (0, 0, 0, 1)\<rparr>)]\<rparr> True) \<and>
   BonePos ''Hips'' 0 0 0 (0, 0, 0, 1) \<notin> set (apply_rest_pose [(''Hips'', \<lparr>pos = None, rot = None\<rparr>)])"
  by (rule hips_never_sent)

section \<open>Preset files\<close>

text \<open>
  Claim C9, as the code has it. For a preset name whose file is absent, \<open>load_preset\<close>
  raises the "preset not found" error, whatever the parser, and \<open>delete_preset\<close> raises
  nothing: it returns \<open>False\<close> and leaves the directory as it is.
\<close>

theorem preset_not_found:
  assumes "map_of dir (preset_path name) = None"
  shows "load_preset json_loads dir name = Inl FileNotFoundError \<and>
         delete_preset dir name = Inr (False, dir)"
  using assms by (simp add: load_preset_def delete_preset_def)

theorem preset_not_found_witness:
  "load_preset (\<lambda>c. Inr c) [(''wave.json'', ''{}'')] ''nod'' = Inl FileNotFoundError \<and>
   delete_preset [(''wave.json'', ''{}'')] ''nod'' = Inr (False, [(''wave.json'', ''{}'')])"
proof -
  have "map_of [(''wave.json'', ''{}'')] (preset_path ''nod'') = None"
    by (simp add: preset_path_def)
  from preset_not_found[OF this] show ?thesis .
qed

text \<open>
  Claim C9 as stated fails for \<open>delete_preset\<close>: on an absent preset it does not raise
  "preset not found" but returns \<open>False\<close>.
\<close>

theorem delete_preset_counterexample:
  "delete_preset [(''wave.json'', ''{}'')] ''nod'' \<noteq> Inl FileNotFoundError \<and>
   delete_preset [(''wave.json'', ''{}'')] ''nod'' = Inr (False, [(''wave.json'', ''{}'')])"
  by (simp add: delete_preset_def preset_path_def)

section \<open>Recorder\<close>

lemma py_int_trunc:
  "\<bar>real_of_int (py_int x)\<bar> \<le> \<bar>x\<bar> \<and> \<bar>x - real_of_int (py_int x)\<bar> < 1"
proof (cases "0 \<le> x")
  case True
  have "real_of_int \<lfloor>x\<rfloor> \<le> x" "x < real_of_int \<lfloor>x\<rfloor> + 1" by linarith+
  moreover from True have "0 \<le> real_of_int \<lfloor>x\<rfloor>" by simp
  ultimately have "\<bar>real_of_int \<lfloor>x\<rfloor>\<bar> \<le> \<bar>x\<bar>" "\<bar>x - real_of_int \<lfloor>x\<rfloor>\<bar> < 1"
    using True by linarith+
  with True show ?thesis by (simp only: py_int_def if_True simp_thms)
next
  case False
  have "x \<le> real_of_int \<lceil>x\<rceil>" "real_of_int \<lceil>x\<rceil> < x + 1" by linarith+
  moreover from False have "\<lceil>x\<rceil> \<le> 0" by simp
  then have "real_of_int \<lceil>x\<rceil> \<le> 0" by linarith
  ultimately have "\<bar>real_of_int \<lceil>x\<rceil>\<bar> \<le> \<bar>x\<bar>" "\<bar>x - real_of_int \<lceil>x\<rceil>\<bar> < 1"
    using False by linarith+
  with False show ?thesis by (simp only: py_int_def if_False simp_thms)
qed

text \<open>The current bone map is empty exactly as long as no bone message has been handled
  since the recording started.\<close>

lemma current_bones_after:
  "current_bones (fold handle_msg msgs r) \<noteq> [] \<longleftrightarrow>
     current_bones r \<noteq> [] \<or> (\<exists>name p q. MsgBone name p q \<in> set msgs)"
proof (induction msgs arbitrary: r)
  case Nil
  show ?case by simp
next
  case (Cons m msgs)
  have upd: "AList.update k v al \<noteq> []" for k and v :: bone and al
    by (cases al) simp_all
  show ?case
  proof (cases m)
    case (MsgBlend name v)
    then show ?thesis by (simp add: Cons.IH on_blendshape_def)
  next
    case (MsgBone name p q)
    then have "current_bones (handle_msg m r) \<noteq> []" by (simp add: on_bone_def upd)
    moreover from MsgBone have "MsgBone name p q \<in> set (m # msgs)"
      by simp
    then have "\<exists>name p q. MsgBone name p q \<in> set (m # msgs)"
      by blast
    ultimately show ?thesis by (simp add: Cons.IH del: set_simps)
  next
    case (MsgApply now)
    then show ?thesis by (simp add: Cons.IH on_blendshape_apply_def Let_def)
  qed
qed

lemma bones_seen_since_start:
  "current_bones (fold handle_msg msgs (start_recording now r)) \<noteq> [] \<longleftrightarrow>
     (\<exists>name p q. MsgBone name p q \<in> set msgs)"
  by (simp add: current_bones_after start_recording_def)

text \<open>
  Claim C4, as the code has it. While recording is active, a Blend/Apply message that
  arrives less than the sample interval of 1/30 s after the last sample changes nothing. Otherwise exactly one frame is appended and \<open>last_sample_time\<close> becomes
  \<open>now\<close>, nothing else changes; the frame's \<^verbatim>\<open>t\<close> is \<open>(now - start_time) * 1000\<close> truncated
  towards zero (not rounded to the nearest integer), its blendshapes are the current
  blendshape map, and it carries a \<^verbatim>\<open>bones\<close> field, the current bone map, exactly when
  the current bone map is not empty.
\<close>

theorem on_blendshape_apply_spec:
  assumes "recording r" and "sample_interval r = 1 / 30"
  shows "(now - last_sample_time r < 1 / 30 \<longrightarrow> on_blendshape_apply now r = r) \<and>
         (\<not> now - last_sample_time r < 1 / 30 \<longrightarrow>
            (\<exists>fr t_ms.
               on_blendshape_apply now r = r\<lparr>rec_frames := rec_frames r @ [fr], last_sample_time := now\<rparr> \<and>
               frame_t fr = Some t_ms \<and>
               \<bar>real_of_int t_ms\<bar> \<le> \<bar>(now - rec_start_time r) * 1000\<bar> \<and>
               \<bar>(now - rec_start_time r) * 1000 - real_of_int t_ms\<bar> < 1 \<and>
               blendshapes fr = Some (current_blendshapes r) \<and>
               (bones fr \<noteq> None \<longleftrightarrow> current_bones r \<noteq> []) \<and>
               (current_bones r \<noteq> [] \<longrightarrow> bones fr = Some (current_bones r))))"
proof -
  define x where "x = (now - rec_start_time r) * 1000"
  have "\<bar>real_of_int (py_int x)\<bar> \<le> \<bar>x\<bar>" "\<bar>x - real_of_int (py_int x)\<bar> < 1"
    using py_int_trunc[of x] by simp_all
  then show ?thesis
    using assms by (auto simp: on_blendshape_apply_def Let_def x_def)
qed


theorem on_blendshape_apply_spec_witness:
  "on_blendshape_apply (1 / 100) (on_blendshape ''Joy'' 1 (start_recording 0 new_recorder)) =
     on_blendshape ''Joy'' 1 (start_recording 0 new_recorder) \<and>
   (\<exists>fr t_ms.
      on_blendshape_apply (407 / 10000) (on_blendshape ''Joy'' 1 (start_recording 0 new_recorder)) =
        (on_blendshape ''Joy'' 1 (start_recording 0 new_recorder))
          \<lparr>rec_frames := [fr], last_sample_time := 407 / 10000\<rparr> \<and>
      frame_t fr = Some t_ms \<and> \<bar>real_of_int t_ms\<bar> \<le> 407 / 10 \<and>
      blendshapes fr = Some [(''Joy'', 1)] \<and> bones fr = None)"
proof -
  let ?r = "on_blendshape ''Joy'' 1 (start_recording 0 new_recorder)"
  have rec: "recording ?r"
    by (simp add: on_blendshape_def start_recording_def)
  have fields: "last_sample_time ?r = 0" "sample_interval ?r = 1 / 30" "rec_start_time ?r = 0"
    "rec_frames ?r = []" "current_blendshapes ?r = [(''Joy'', 1)]" "current_bones ?r = []"
    by (simp_all add: on_blendshape_def start_recording_def new_recorder_def)
  have a: "on_blendshape_apply (1 / 100) ?r = ?r"
    using on_blendshape_apply_spec[OF rec fields(2), of "1 / 100"] by (simp add: fields)
  have b: "\<exists>fr t_ms.
      on_blendshape_apply (407 / 10000) ?r = ?r\<lparr>rec_frames := [fr], last_sample_time := 407 / 10000\<rparr> \<and>
      frame_t fr = Some t_ms \<and> \<bar>real_of_int t_ms\<bar> \<le> 407 / 10 \<and>
      blendshapes fr = Some [(''Joy'', 1)] \<and> bones fr = None"
    using on_blendshape_apply_spec[OF rec fields(2), of "407 / 10000"] by (simp add: fields) blast
  from a b show ?thesis by (rule conjI)
qed

text \<open>
  Claim C4 as stated fails on the time stamp: 40.7 ms after the start the recorded \<^verbatim>\<open>t\<close>
  is 40, whereas rounding gives 41.
\<close>

theorem on_blendshape_apply_counterexample:
  "rec_frames (on_blendshape_apply (407 / 10000) (start_recording 0 new_recorder)) =
     [\<lparr>frame_t = Some 40, blendshapes = Some [], bones = None\<rparr>] \<and>
   round ((407 / 10000 - 0) * 1000 :: real) = 41"
  by (simp add: on_blendshape_apply_def start_recording_def new_recorder_def py_int_def Let_def
      round_def)

section \<open>Sampling the active actions\<close>

lemma find_frame_loop_total:
  assumes "\<forall>f \<in> set frs. frame_t f \<noteq> None"
  shows "\<exists>f. find_frame_loop frs e best = Inr f"
  using assms by (induction frs arbitrary: best) (auto split: option.splits)

lemma find_frame_total:
  assumes "frs \<noteq> []" and "\<forall>f \<in> set frs. frame_t f \<noteq> None"
  shows "\<exists>f. find_frame frs e = Inr f"
  using assms find_frame_loop_total[of frs e "hd frs"]
  by (cases frs) (simp_all add: find_frame_def)

lemma find_frame_single:
  assumes "frame_t f \<noteq> None"
  shows "find_frame [f] e = Inr f"
  using assms by (auto simp: find_frame_def)

lemma scan_actions_spec:
  assumes "\<forall>a \<in> set acts. \<forall>f \<in> set (frames a). frame_t f \<noteq> None"
  shows "\<exists>acts' sampled expired.
     scan_actions rd rs i acts = Inr (acts', sampled, expired) \<and>
     length acts' = length acts \<and>
     map Inr sampled = sampled_frames rd i acts \<and>
     (\<forall>pre. length pre = i \<longrightarrow>
        pop_all (rev expired) (pre @ acts') = Inr (pre @ kept_actions rd rs i acts))"
  using assms
proof (induction acts arbitrary: i)
  case Nil
  show ?case by (simp add: sampled_frames_def kept_actions_def)
next
  case (Cons a acts)
  from Cons.prems have wf: "\<forall>a \<in> set acts. \<forall>f \<in> set (frames a). frame_t f \<noteq> None"
    and wfa: "\<forall>f \<in> set (frames a). frame_t f \<noteq> None"
    by simp_all
  from Cons.IH[OF wf, of "Suc i"] obtain acts' sampled expired where
    sc: "scan_actions rd rs (Suc i) acts = Inr (acts', sampled, expired)"
    and len: "length acts' = length acts"
    and sm: "map Inr sampled = sampled_frames rd (Suc i) acts"
    and pp: "\<And>pre. length pre = Suc i \<Longrightarrow>
        pop_all (rev expired) (pre @ acts') = Inr (pre @ kept_actions rd rs (Suc i) acts)"
    by blast
  have kept_cons: "kept_actions rd rs i (a # acts) =
      (if finished rd i a \<and> \<not> loop a then []
       else [if finished rd i a then a\<lparr>start_time := rs i\<rparr> else a]) @ kept_actions rd rs (Suc i) acts"
    by (simp add: kept_actions_def)
  have samp_cons: "sampled_frames rd i (a # acts) =
      (if frames a \<noteq> [] \<and> \<not> (finished rd i a \<and> \<not> loop a)
       then [find_frame (frames a) (if finished rd i a then 0 else (rd i - start_time a) * 1000)]
       else []) @ sampled_frames rd (Suc i) acts"
    by (simp add: sampled_frames_def)
  show ?case
  proof (cases "frames a = []")
    case True
    then have nf: "\<not> finished rd i a" by (simp add: finished_def)
    have "scan_actions rd rs i (a # acts) = Inr (a # acts', sampled, expired)"
      using True sc by simp
    moreover have "pop_all (rev expired) (pre @ a # acts') = Inr (pre @ kept_actions rd rs i (a # acts))"
      if "length pre = i" for pre
      using pp[of "pre @ [a]"] that nf by (simp add: kept_cons)
    ultimately show ?thesis
      using len sm True nf by (simp add: samp_cons)
  next
    case False
    with wfa have "frame_t (last (frames a)) \<noteq> None" by simp
    then obtain D where D: "frame_t (last (frames a)) = Some D" by auto
    show ?thesis
    proof (cases "(rd i - start_time a) * 1000 \<ge> real_of_int D")
      case fin: True
      then have f: "finished rd i a" using False D by (simp add: finished_def)
      show ?thesis
      proof (cases "loop a")
        case True
        from find_frame_total[OF False wfa, of 0] obtain fr where fr: "find_frame (frames a) 0 = Inr fr"
          by blast
        have "scan_actions rd rs i (a # acts) = Inr (a\<lparr>start_time := rs i\<rparr> # acts', fr # sampled, expired)"
          using False D fin True fr sc by (simp add: Let_def)
        moreover have "pop_all (rev expired) (pre @ a\<lparr>start_time := rs i\<rparr> # acts') =
            Inr (pre @ kept_actions rd rs i (a # acts))"
          if "length pre = i" for pre
          using pp[of "pre @ [a\<lparr>start_time := rs i\<rparr>]"] that f True by (simp add: kept_cons)
        ultimately show ?thesis
          using len sm False f True fr by (simp add: samp_cons)
      next
        case nl: False
        have "scan_actions rd rs i (a # acts) = Inr (a # acts', sampled, i # expired)"
          using False D fin nl sc by (simp add: Let_def)
        moreover have "pop_all (rev (i # expired)) (pre @ a # acts') =
            Inr (pre @ kept_actions rd rs i (a # acts))"
          if "length pre = i" for pre
        proof -
          have app: "pop_all (xs @ [j]) ys =
              (case pop_all xs ys of Inl e \<Rightarrow> Inl e | Inr zs \<Rightarrow> pop_all [j] zs)"
            for xs j and ys :: "action list"
            by (induction xs arbitrary: ys) simp_all
          from pp[of "pre @ [a]"] that
          have "pop_all (rev expired) (pre @ a # acts') = Inr (pre @ a # kept_actions rd rs (Suc i) acts)"
            by simp
          then show ?thesis
            using that f nl by (simp add: app kept_cons)
        qed
        ultimately show ?thesis
          using len sm False f nl by (simp add: samp_cons)
      qed
    next
      case nfin: False
      then have f: "\<not> finished rd i a" using D by (simp add: finished_def)
      from find_frame_total[OF \<open>frames a \<noteq> []\<close> wfa, of "(rd i - start_time a) * 1000"]
      obtain fr where fr: "find_frame (frames a) ((rd i - start_time a) * 1000) = Inr fr"
        by blast
      have "scan_actions rd rs i (a # acts) = Inr (a # acts', fr # sampled, expired)"
        using \<open>frames a \<noteq> []\<close> D nfin fr sc by (simp add: Let_def)
      moreover have "pop_all (rev expired) (pre @ a # acts') = Inr (pre @ kept_actions rd rs i (a # acts))"
        if "length pre = i" for pre
        using pp[of "pre @ [a]"] that f by (simp add: kept_cons)
      ultimately show ?thesis
        using len sm \<open>frames a \<noteq> []\<close> f fr by (simp add: samp_cons)
    qed
  qed
qed

text \<open>
  Claim C7, as the code has it. For a list of active actions whose frames all carry
  \<^verbatim>\<open>"t"\<close>, \<open>get_active_action_frames\<close> returns; the actions it leaves are the actions
  that have not finished or that loop, in order, a finished looping action with its
  start time set to the clock reading \<open>rs i\<close>; the frames it returns are, in order, for
  each action left that has frames, the frame found at elapsed 0 for a restarted action
  and at the elapsed time otherwise; a finished action that does not loop is removed
  and contributes no frame. A single-frame clip has the \<^verbatim>\<open>t\<close> of its frame as its
  duration (zero only when that \<^verbatim>\<open>t\<close> is 0), and sampling it at any time yields that frame.
\<close>

theorem get_active_action_frames_spec:
  assumes "\<forall>a \<in> set acts. \<forall>f \<in> set (frames a). frame_t f \<noteq> None"
  shows "(\<exists>remaining sampled.
           get_active_action_frames rd rs acts = Inr (remaining, sampled) \<and>
           remaining = kept_actions rd rs 0 acts \<and>
           map Inr sampled = sampled_frames rd 0 acts) \<and>
         (\<forall>f e. frame_t f \<noteq> None \<longrightarrow> frame_t (last [f]) = frame_t f \<and> find_frame [f] e = Inr f)"
proof -
  from scan_actions_spec[OF assms, of rd rs 0] obtain acts' sampled expired where
    sc: "scan_actions rd rs 0 acts = Inr (acts', sampled, expired)"
    and sm: "map Inr sampled = sampled_frames rd 0 acts"
    and pp: "\<And>pre. length pre = 0 \<Longrightarrow>
        pop_all (rev expired) (pre @ acts') = Inr (pre @ kept_actions rd rs 0 acts)"
    by blast
  from pp[of "[]"] have "pop_all (rev expired) acts' = Inr (kept_actions rd rs 0 acts)" by simp
  with sc sm have "get_active_action_frames rd rs acts = Inr (kept_actions rd rs 0 acts, sampled)"
    by (simp add: get_active_action_frames_def)
  with sm show ?thesis
    by (simp add: find_frame_single)
qed


theorem get_active_action_frames_spec_witness:
  "get_active_action_frames (steady_clock 1) (steady_clock 2)
     [\<lparr>frames = [\<lparr>frame_t = Some 0, blendshapes = Some [(''A'', 1)], bones = None\<rparr>,
                 \<lparr>frame_t = Some 100, blendshapes = Some [(''A'', 0)], bones = None\<rparr>],
       loop = True, start_time = 0\<rparr>,
      \<lparr>frames = [\<lparr>frame_t = Some 0, blendshapes = Some [(''B'', 1)], bones = None\<rparr>,
                 \<lparr>frame_t = Some 100, blendshapes = Some [(''B'', 0)], bones = None\<rparr>],
       loop = False, start_time = 0\<rparr>,
      \<lparr>frames = [\<lparr>frame_t = Some 0, blendshapes = Some [(''C'', 1)], bones = None\<rparr>,
                 \<lparr>frame_t = Some 2000, blendshapes = Some [(''C'', 0)], bones = None\<rparr>],
       loop = False, start_time = 0\<rparr>] =
   Inr ([\<lparr>frames = [\<lparr>frame_t = Some 0, blendshapes = Some [(''A'', 1)], bones = None\<rparr>,
                     \<lparr>frame_t = Some 100, blendshapes = Some [(''A'', 0)], bones = None\<rparr>],
           loop = True, start_time = 2\<rparr>,
         \<lparr>frames = [\<lparr>frame_t = Some 0, blendshapes = Some [(''C'', 1)], bones = None\<rparr>,
                     \<lparr>frame_t = Some 2000, blendshapes = Some [(''C'', 0)], bones = None\<rparr>],
           loop = False, start_time = 0\<rparr>],
        [\<lparr>frame_t = Some 0, blendshapes = Some [(''A'', 1)], bones = None\<rparr>,
         \<lparr>frame_t = Some 0, blendshapes = Some [(''C'', 1)], bones = None\<rparr>])"
proof -
  let ?acts = "[\<lparr>frames = [\<lparr>frame_t = Some 0, blendshapes = Some [(''A'', 1)], bones = None\<rparr>,
                 \<lparr>frame_t = Some 100, blendshapes = Some [(''A'', 0)], bones = None\<rparr>],
       loop = True, start_time = 0\<rparr>,
      \<lparr>frames = [\<lparr>frame_t = Some 0, blendshapes = Some [(''B'', 1)], bones = None\<rparr>,
                 \<lparr>frame_t = Some 100, blendshapes = Some [(''B'', 0)], bones = None\<rparr>],
       loop = False, start_time = 0\<rparr>,
      \<lparr>frames = [\<lparr>frame_t = Some 0, blendshapes = Some [(''C'', 1)], bones = None\<rparr>,
                 \<lparr>frame_t = Some 2000, blendshapes = Some [(''C'', 0)], bones = None\<rparr>],
       loop = False, start_time = 0\<rparr>]"
  have wf: "\<forall>a \<in> set ?acts. \<forall>f \<in> set (frames a). frame_t f \<noteq> None"
    by simp
  from get_active_action_frames_spec[OF wf, of "steady_clock 1" "steady_clock 2"] obtain remaining sampled where
    eq: "get_active_action_frames (steady_clock 1) (steady_clock 2) ?acts = Inr (remaining, sampled)"
    and r: "remaining = kept_actions (steady_clock 1) (steady_clock 2) 0 ?acts"
    and sm: "map Inr sampled = sampled_frames (steady_clock 1) 0 ?acts"
    by blast
  from sm have "map Inr sampled =
      [Inr \<lparr>frame_t = Some 0, blendshapes = Some [(''A'', 1)], bones = None\<rparr>,
       Inr \<lparr>frame_t = Some 0, blendshapes = Some [(''C'', 1)], bones = None\<rparr> :: error + frame]"
    by (simp add: sampled_frames_def finished_def find_frame_def)
  then have s': "sampled = [\<lparr>frame_t = Some 0, blendshapes = Some [(''A'', 1)], bones = None\<rparr>,
         \<lparr>frame_t = Some 0, blendshapes = Some [(''C'', 1)], bones = None\<rparr>]"
    by (auto simp: map_eq_Cons_conv)
  from r have r': "remaining =
       [\<lparr>frames = [\<lparr>frame_t = Some 0, blendshapes = Some [(''A'', 1)], bones = None\<rparr>,
                     \<lparr>frame_t = Some 100, blendshapes = Some [(''A'', 0)], bones = None\<rparr>],
           loop = True, start_time = 2\<rparr>,
         \<lparr>frames = [\<lparr>frame_t = Some 0, blendshapes = Some [(''C'', 1)], bones = None\<rparr>,
                     \<lparr>frame_t = Some 2000, blendshapes = Some [(''C'', 0)], bones = None\<rparr>],
           loop = False, start_time = 0\<rparr>]"
    by (simp add: kept_actions_def finished_def)
  from eq r' s' show ?thesis by simp
qed

text \<open>
  Claim C7 as stated fails on "a single-frame clip has zero duration": a one-shot clip
  whose only frame has \<^verbatim>\<open>t = 500\<close> has duration 500; at 100 elapsed milliseconds it is
  not removed and contributes its frame, although the elapsed time has reached zero.
\<close>

theorem single_frame_clip_counterexample:
  "get_active_action_frames (steady_clock (1 / 10)) (steady_clock (1 / 10))
     [\<lparr>frames = [\<lparr>frame_t = Some 500, blendshapes = Some [(''Joy'', 1)], bones = None\<rparr>],
       loop = False, start_time = 0\<rparr>] =
   Inr ([\<lparr>frames = [\<lparr>frame_t = Some 500, blendshapes = Some [(''Joy'', 1)], bones = None\<rparr>],
          loop = False, start_time = 0\<rparr>],
        [\<lparr>frame_t = Some 500, blendshapes = Some [(''Joy'', 1)], bones = None\<rparr>]) \<and>
   frame_t (last [\<lparr>frame_t = Some 500, blendshapes = Some [(''Joy'', 1)], bones = None\<rparr>]) = Some 500 \<and>
   (1 / 10 - 0) * 1000 \<ge> (0 :: real)"
  by (simp add: get_active_action_frames_def find_frame_def Let_def)

section \<open>The render loop and the reset on exit\<close>

lemma set_set_update: "set (set_update s ks) = set s \<union> set ks"
proof -
  have "set (fold (\<lambda>k acc. if k \<in> set acc then acc else acc @ [k]) ks s) = set s \<union> set ks"
    by (induction ks arbitrary: s) auto
  then show ?thesis by (simp add: set_update_def)
qed

lemma set_fold_set_update:
  "set (fold (\<lambda>f s. set_update s (g f)) frs s0) = set s0 \<union> (\<Union>f \<in> set frs. set (g f))"
  by (induction frs arbitrary: s0) (auto simp: set_set_update)

lemma find_frame_loop_in_set:
  assumes "find_frame_loop frs e best = Inr f"
  shows "f = best \<or> f \<in> set frs"
  using assms by (induction frs arbitrary: best) (auto split: option.splits if_splits)

lemma find_frame_in_set:
  assumes "find_frame frs e = Inr f"
  shows "f \<in> set frs"
  using assms find_frame_loop_in_set[of frs e "hd frs" f]
  by (cases frs) (auto simp: find_frame_def)

lemma clamp_blendshapes_zeros:
  "clamp_blendshapes (map (\<lambda>n. (n, 0)) names) = map (\<lambda>n. (n, 0)) names"
proof -
  have m: "map (\<lambda>(k, v). (k, max 0 (min 1 v))) (map (\<lambda>n. (n, 0::real)) names) = map (\<lambda>n. (n, 0)) names"
    by simp
  have g: "dict_get (map (\<lambda>n. (n, 0::real)) names) k 0 = 0" for k
    by (cases "map_of (map (\<lambda>n. (n, 0::real)) names) k")
      (auto simp: dict_get_def dest: map_of_SomeD)
  show ?thesis
    unfolding clamp_blendshapes_def m
    by (simp add: Let_def max_default_def EXPRESSIONS_AFFECTING_EYES_def g)
qed

lemma send_reset_frame:
  "send_frame rest_pose \<lparr>frame_t = None, blendshapes = Some (map (\<lambda>n. (n, 0)) names), bones = None\<rparr> False =
     map (\<lambda>n. BlendVal n 0) names @ [BlendApply] @ send_bone_loop rest_pose"
  by (simp add: send_frame_def get_blendshapes_def clamp_blendshapes_zeros Let_def comp_def)

text \<open>The positions that \<open>find_frame_index\<close> and \<open>sample_locs\<close> give are the positions of
  the frames that \<open>find_frame\<close> and \<open>get_active_action_frames\<close> return.\<close>

lemma find_index_loop_spec:
  assumes "find_frame_loop fs e best = Inr f"
    and "length pre = i" and "b < length (pre @ fs)" and "(pre @ fs) ! b = best"
  shows "(pre @ fs) ! find_index_loop fs e i b = f \<and> find_index_loop fs e i b < length (pre @ fs)"
  using assms
proof (induction fs arbitrary: pre i b best)
  case Nil
  then show ?case by simp
next
  case (Cons x fs)
  from Cons.prems(1) obtain t where t: "frame_t x = Some t"
    by (cases "frame_t x") auto
  show ?case
  proof (cases "real_of_int t \<le> e")
    case True
    with Cons.prems(1) t have 1: "find_frame_loop fs e x = Inr f" by simp
    have 2: "length (pre @ [x]) = Suc i" using Cons.prems(2) by simp
    have 3: "i < length ((pre @ [x]) @ fs)" using Cons.prems(2) by simp
    have 4: "((pre @ [x]) @ fs) ! i = x" using Cons.prems(2) by (simp add: nth_append)
    from Cons.IH[OF 1 2 3 4] show ?thesis
      using t True by simp
  next
    case False
    with Cons.prems(1) t have "f = best" by simp
    then show ?thesis using t False Cons.prems(3,4) by simp
  qed
qed

lemma find_frame_index_spec:
  assumes "find_frame frs e = Inr f"
  shows "frs ! find_frame_index frs e = f \<and> find_frame_index frs e < length frs"
proof (cases frs)
  case Nil
  with assms show ?thesis by (simp add: find_frame_def)
next
  case (Cons f0 rest)
  with assms have 1: "find_frame_loop frs e f0 = Inr f" by (simp add: find_frame_def)
  have "([] @ frs) ! find_index_loop frs e 0 0 = f \<and> find_index_loop frs e 0 0 < length ([] @ frs)"
    by (rule find_index_loop_spec[OF 1]) (simp_all add: Cons)
  then show ?thesis by (simp add: find_frame_index_def)
qed

lemma sample_locs_spec:
  assumes "\<forall>a \<in> set acts. \<forall>f \<in> set (frames a). frame_t f \<noteq> None"
  shows "map (\<lambda>(k, j). Inr (frames ((pre @ kept_actions rd rs i acts) ! k) ! j))
           (sample_locs rd i (length pre) acts) = sampled_frames rd i acts"
  using assms
proof (induction acts arbitrary: i pre)
  case Nil
  show ?case by (simp add: sampled_frames_def)
next
  case (Cons a acts)
  from Cons.prems have wf: "\<forall>a \<in> set acts. \<forall>f \<in> set (frames a). frame_t f \<noteq> None"
    and wfa: "\<forall>f \<in> set (frames a). frame_t f \<noteq> None"
    by simp_all
  have kept_cons: "kept_actions rd rs i (a # acts) =
      (if finished rd i a \<and> \<not> loop a then []
       else [if finished rd i a then a\<lparr>start_time := rs i\<rparr> else a]) @ kept_actions rd rs (Suc i) acts"
    by (simp add: kept_actions_def)
  have samp_cons: "sampled_frames rd i (a # acts) =
      (if frames a \<noteq> [] \<and> \<not> (finished rd i a \<and> \<not> loop a)
       then [find_frame (frames a) (if finished rd i a then 0 else (rd i - start_time a) * 1000)]
       else []) @ sampled_frames rd (Suc i) acts"
    by (simp add: sampled_frames_def)
  note IH = Cons.IH[OF wf]
  show ?case
  proof (cases "frames a = []")
    case True
    then have nf: "\<not> finished rd i a" by (simp add: finished_def)
    from IH[of "pre @ [a]" "Suc i"] show ?thesis
      using True nf by (simp add: kept_cons samp_cons)
  next
    case False
    with wfa have "frame_t (last (frames a)) \<noteq> None" by simp
    then obtain D where D: "frame_t (last (frames a)) = Some D" by auto
    show ?thesis
    proof (cases "(rd i - start_time a) * 1000 \<ge> real_of_int D")
      case fin: True
      then have f: "finished rd i a" using False D by (simp add: finished_def)
      show ?thesis
      proof (cases "loop a")
        case True
        from find_frame_total[OF False wfa, of 0] obtain fr where fr: "find_frame (frames a) 0 = Inr fr"
          by blast
        from find_frame_index_spec[OF fr] have idx: "frames a ! find_frame_index (frames a) 0 = fr"
          by simp
        from IH[of "pre @ [a\<lparr>start_time := rs i\<rparr>]" "Suc i"] show ?thesis
          using False D fin f True fr idx by (simp add: kept_cons samp_cons Let_def)
      next
        case nl: False
        from IH[of pre "Suc i"] show ?thesis
          using False D fin f nl by (simp add: kept_cons samp_cons Let_def)
      qed
    next
      case nfin: False
      then have f: "\<not> finished rd i a" using D by (simp add: finished_def)
      from find_frame_total[OF False wfa, of "(rd i - start_time a) * 1000"]
      obtain fr where fr: "find_frame (frames a) ((rd i - start_time a) * 1000) = Inr fr"
        by blast
      from find_frame_index_spec[OF fr]
      have idx: "frames a ! find_frame_index (frames a) ((rd i - start_time a) * 1000) = fr"
        by simp
      from IH[of "pre @ [a]" "Suc i"] show ?thesis
        using False D nfin f fr idx by (simp add: kept_cons samp_cons Let_def)
    qed
  qed
qed

lemma cleanup_keeps_t:
  "frame_t (identity_dirty_bones db (zero_dirty_blendshapes dbs m)) = frame_t m"
  by (simp add: identity_dirty_bones_def zero_dirty_blendshapes_def)

lemma sample_locs_sound:
  assumes "\<forall>a \<in> set acts. \<forall>f \<in> set (frames a). frame_t f \<noteq> None"
    and "get_active_action_frames rd rs acts = Inr (remaining, sampled)"
  shows "map (\<lambda>(k, j). frames (remaining ! k) ! j) (sample_locs rd 0 0 acts) = sampled"
proof -
  from scan_actions_spec[OF assms(1), of rd rs 0] obtain acts' sampled' expired where
    sc: "scan_actions rd rs 0 acts = Inr (acts', sampled', expired)"
    and sm: "map Inr sampled' = sampled_frames rd 0 acts"
    and pp: "\<And>pre. length pre = 0 \<Longrightarrow>
        pop_all (rev expired) (pre @ acts') = Inr (pre @ kept_actions rd rs 0 acts)"
    by blast
  from pp[of "[]"] have "pop_all (rev expired) acts' = Inr (kept_actions rd rs 0 acts)" by simp
  with sc assms(2) have r: "remaining = kept_actions rd rs 0 acts" and s: "sampled = sampled'"
    by (simp_all add: get_active_action_frames_def)
  from sample_locs_spec[OF assms(1), of "[]" rd rs 0]
  have "map (\<lambda>(k, j). Inr (frames (remaining ! k) ! j) :: error + frame) (sample_locs rd 0 0 acts) =
        map Inr sampled"
    by (simp add: r s sm)
  then have "map (Inr \<circ> (\<lambda>(k, j). frames (remaining ! k) ! j)) (sample_locs rd 0 0 acts) =
        (map Inr sampled :: (error + frame) list)"
    by (simp add: comp_def case_prod_unfold)
  then have "map Inr (map (\<lambda>(k, j). frames (remaining ! k) ! j) (sample_locs rd 0 0 acts)) =
        (map Inr sampled :: (error + frame) list)"
    by (simp only: map_map)
  then show ?thesis
    by (simp only: inj_map_eq_map[OF inj_Inr])
qed

text \<open>The ticks of a lone one-shot action: while it plays, a tick sends a frame and
  writes the clean-up entries into the sampled frame of the clip, which keeps the time
  stamps of the clip; the tick at which it has finished removes it and sends nothing; the
  next tick leaves the loop.\<close>

lemma render_step_playing:
  assumes "\<not> idle_active p" and "active_actions p = [a]" and "\<not> loop a"
    and "frames a \<noteq> []" and "\<forall>f \<in> set (frames a). frame_t f \<noteq> None"
    and "frame_t (last (frames a)) = Some D"
    and "(tick_rd tk 0 - start_time a) * 1000 < real_of_int D"
  shows "\<exists>msgs frs'. render_step rest_pose idle_epoch tk p =
           Inr (Continue (p\<lparr>active_actions := [a\<lparr>frames := frs'\<rparr>]\<rparr>) (Some msgs)) \<and>
         map frame_t frs' = map frame_t (frames a)"
proof -
  let ?e = "(tick_rd tk 0 - start_time a) * 1000"
  from find_frame_total[OF assms(4,5), of ?e]
  obtain fr where fr: "find_frame (frames a) ?e = Inr fr"
    by blast
  from find_frame_in_set[OF fr] assms(5) have "frame_t fr \<noteq> None" by blast
  then have ne: "frame_nonempty fr" by (simp add: frame_nonempty_def)
  let ?j = "find_frame_index (frames a) ?e"
  from find_frame_index_spec[OF fr] have j: "frames a ! ?j = fr" "?j < length (frames a)"
    by simp_all
  have g: "get_active_action_frames (tick_rd tk) (tick_rs tk) [a] = Inr ([a], [fr])"
    using assms(4,6,7) fr by (simp add: get_active_action_frames_def Let_def)
  have locs: "sample_locs (tick_rd tk) 0 0 [a] = [(0, ?j)]"
    using assms(4,6,7) by (simp add: Let_def)
  have m: "merge_multiple_actions None [fr] = Some fr"
    using ne by (simp add: merge_multiple_actions_def merge_layers_def truthy_def empty_frame_def
        frame_nonempty_def)
  define m2 where "m2 = identity_dirty_bones (dirty_bones p)
      (zero_dirty_blendshapes (dirty_blendshapes p) fr)"
  have t2: "frame_t m2 = frame_t fr"
    by (simp add: m2_def cleanup_keeps_t)
  have st: "render_step rest_pose idle_epoch tk p =
      Inr (Continue (p\<lparr>active_actions := [a\<lparr>frames := (frames a)[?j := m2]\<rparr>]\<rparr>)
             (Some (send_frame rest_pose m2 (get_bones m2 \<noteq> []))))"
    using assms(1,2) ne
    by (simp add: render_step_def g m locs truthy_def Let_def merged_ref_def write_back_def m2_def
        del: sample_locs.simps)
  have "map frame_t ((frames a)[?j := m2]) = map frame_t (frames a)"
    using j t2 by (simp add: map_update list_update_same_conv)
  with st show ?thesis by blast
qed

lemma render_step_expired:
  assumes "\<not> idle_active p" and "active_actions p = [a]" and "\<not> loop a"
    and "frames a \<noteq> []"
    and "frame_t (last (frames a)) = Some D"
    and "(tick_rd tk 0 - start_time a) * 1000 \<ge> real_of_int D"
  shows "render_step rest_pose idle_epoch tk p = Inr (Continue (p\<lparr>active_actions := []\<rparr>) None)"
proof -
  have g: "get_active_action_frames (tick_rd tk) (tick_rs tk) [a] = Inr ([], [])"
    using assms(3,4,5,6) by (simp add: get_active_action_frames_def Let_def)
  show ?thesis
    using assms(1,2) by (simp add: render_step_def g merge_multiple_actions_def truthy_def Let_def)
qed

lemma render_loop_quiescent:
  assumes "\<not> idle_active p" and "active_actions p = []"
  shows "render_loop rest_pose idle_epoch (tk # tks) p =
     Inr (p\<lparr>dirty_blendshapes := [], dirty_bones := [], running := False\<rparr>,
          (if reset_names p \<noteq> []
           then [map (\<lambda>n. BlendVal n 0) (reset_names p) @ [BlendApply] @ send_bone_loop rest_pose]
           else []),
          True)"
proof -
  have fin: "finish_loop rest_pose p =
     (p\<lparr>dirty_blendshapes := [], dirty_bones := [], running := False\<rparr>,
          (if reset_names p \<noteq> []
           then [map (\<lambda>n. BlendVal n 0) (reset_names p) @ [BlendApply] @ send_bone_loop rest_pose]
           else []),
          True)"
    by (simp add: finish_loop_def send_reset_def Let_def send_reset_frame)
  have "render_step rest_pose idle_epoch tk p = Inr Break"
    using assms by (simp add: render_step_def)
  then show ?thesis
    by (simp add: fin)
qed

lemma render_loop_continue:
  assumes "running p" and "render_step rest_pose idle_epoch tk p = Inr (Continue p' sent)"
  shows "render_loop rest_pose idle_epoch (tk # tks) p =
     (case render_loop rest_pose idle_epoch tks p' of
        Inl e \<Rightarrow> Inl e
      | Inr (q, later, ended) \<Rightarrow>
          Inr (q, (case sent of None \<Rightarrow> [] | Some msgs \<Rightarrow> [msgs]) @ later, ended))"
  using assms by simp

lemma set_reset_names:
  "set (reset_names p) =
     set (dirty_blendshapes p) \<union>
     (\<Union>a \<in> set (active_actions p). \<Union>f \<in> set (frames a). set (dict_keys (get_blendshapes f))) \<union>
     (\<Union>f \<in> set (idle_frames p). set (dict_keys (get_blendshapes f)))"
proof -
  have inner: "set (fold (\<lambda>a s. fold (\<lambda>f s'. set_update s' (dict_keys (get_blendshapes f))) (frames a) s) acts s0) =
      set s0 \<union> (\<Union>a \<in> set acts. \<Union>f \<in> set (frames a). set (dict_keys (get_blendshapes f)))"
    for acts :: "action list" and s0
    by (induction acts arbitrary: s0) (auto simp: set_fold_set_update)
  show ?thesis
    by (simp add: reset_names_def Let_def set_fold_set_update inner set_set_update)
qed

lemma render_loop_single_action:
  assumes "\<not> idle_active p" and "active_actions p = [a]" and "running p"
    and "\<not> loop a" and "frames a \<noteq> []" and "\<forall>f \<in> set (frames a). frame_t f \<noteq> None"
    and "frame_t (last (frames a)) = Some D"
    and "\<forall>tk \<in> set playing. (tick_rd tk 0 - start_time a) * 1000 < real_of_int D"
    and exp_tick: "(tick_rd tk1 0 - start_time a) * 1000 \<ge> real_of_int D"
  shows "\<exists>played.
     render_loop rest_pose idle_epoch (playing @ tk1 # tk2 # tks) p =
       Inr (p\<lparr>active_actions := [], dirty_blendshapes := [], dirty_bones := [], running := False\<rparr>,
            played @
            (if reset_names (p\<lparr>active_actions := []\<rparr>) \<noteq> []
             then [map (\<lambda>n. BlendVal n 0) (reset_names (p\<lparr>active_actions := []\<rparr>)) @ [BlendApply]
                    @ send_bone_loop rest_pose]
             else []),
            True) \<and>
     length played = length playing"
  using assms
proof (induction playing arbitrary: p a)
  case Nil
  let ?p' = "p\<lparr>active_actions := []\<rparr>"
  have st: "render_step rest_pose idle_epoch tk1 p = Inr (Continue ?p' None)"
    by (rule render_step_expired[OF Nil.prems(1,2,4,5,7,9)])
  have q: "render_loop rest_pose idle_epoch (tk2 # tks) ?p' =
     Inr (?p'\<lparr>dirty_blendshapes := [], dirty_bones := [], running := False\<rparr>,
          (if reset_names ?p' \<noteq> []
           then [map (\<lambda>n. BlendVal n 0) (reset_names ?p') @ [BlendApply] @ send_bone_loop rest_pose]
           else []),
          True)"
    by (rule render_loop_quiescent) (use Nil.prems(1) in simp_all)
  show ?case
    by (simp add: render_loop_continue[OF Nil.prems(3) st] q del: render_loop.simps)
next
  case (Cons tk playing)
  from Cons.prems(8) have now: "(tick_rd tk 0 - start_time a) * 1000 < real_of_int D"
    and later: "\<forall>tk \<in> set playing. (tick_rd tk 0 - start_time a) * 1000 < real_of_int D"
    by simp_all
  from render_step_playing[OF Cons.prems(1,2,4,5,6,7) now, of rest_pose idle_epoch]
  obtain msgs frs' where
    st: "render_step rest_pose idle_epoch tk p =
           Inr (Continue (p\<lparr>active_actions := [a\<lparr>frames := frs'\<rparr>]\<rparr>) (Some msgs))"
    and ts: "map frame_t frs' = map frame_t (frames a)"
    by blast
  let ?a' = "a\<lparr>frames := frs'\<rparr>"
  let ?p' = "p\<lparr>active_actions := [?a']\<rparr>"
  from ts have len: "length frs' = length (frames a)"
    by (rule map_eq_imp_length_eq)
  with Cons.prems(5) have ne: "frames ?a' \<noteq> []" by auto
  have "frame_t ` set frs' = frame_t ` set (frames a)"
    using ts by (metis set_map)
  with Cons.prems(6) have wf: "\<forall>f \<in> set (frames ?a'). frame_t f \<noteq> None"
    by (simp add: image_iff) (metis imageI image_iff)
  have "frame_t (last frs') = last (map frame_t frs')"
    using ne by (simp add: last_map)
  also have "\<dots> = frame_t (last (frames a))"
    using ts Cons.prems(5) by (simp add: last_map)
  finally have lastD: "frame_t (last (frames ?a')) = Some D"
    using Cons.prems(7) by simp
  have p'1: "\<not> idle_active ?p'" "active_actions ?p' = [?a']" "running ?p'" "\<not> loop ?a'"
    using Cons.prems(1,3,4) by simp_all
  have later': "\<forall>tk \<in> set playing. (tick_rd tk 0 - start_time ?a') * 1000 < real_of_int D"
    using later by simp
  have exp': "(tick_rd tk1 0 - start_time ?a') * 1000 \<ge> real_of_int D"
    using Cons.prems(9) by simp
  from Cons.IH[OF p'1 ne wf lastD later' exp'] obtain played where
    rl: "render_loop rest_pose idle_epoch (playing @ tk1 # tk2 # tks) ?p' =
       Inr (?p'\<lparr>active_actions := [], dirty_blendshapes := [], dirty_bones := [], running := False\<rparr>,
            played @
            (if reset_names (?p'\<lparr>active_actions := []\<rparr>) \<noteq> []
             then [map (\<lambda>n. BlendVal n 0) (reset_names (?p'\<lparr>active_actions := []\<rparr>)) @ [BlendApply]
                    @ send_bone_loop rest_pose]
             else []),
            True)"
    and plen: "length played = length playing"
    by blast
  have "render_loop rest_pose idle_epoch ((tk # playing) @ tk1 # tk2 # tks) p =
       Inr (p\<lparr>active_actions := [], dirty_blendshapes := [], dirty_bones := [], running := False\<rparr>,
            (msgs # played) @
            (if reset_names (p\<lparr>active_actions := []\<rparr>) \<noteq> []
             then [map (\<lambda>n. BlendVal n 0) (reset_names (p\<lparr>active_actions := []\<rparr>)) @ [BlendApply]
                    @ send_bone_loop rest_pose]
             else []),
            True)"
    using render_loop_continue[OF Cons.prems(3) st, of "playing @ tk1 # tk2 # tks"]
    by (simp add: rl del: render_loop.simps)
  moreover have "length (msgs # played) = length (tk # playing)"
    using plen by simp
  ultimately show ?case by blast
qed

lemma send_bone_loop_sound:
  assumes "BonePos name px py pz q \<in> set (send_bone_loop bs)"
  shows "name \<noteq> ''Hips'' \<and> px = 0 \<and> py = 0 \<and> pz = 0 \<and> (\<exists>b. (name, b) \<in> set bs \<and> q = get_rot b)"
  using assms by (induction bs rule: send_bone_loop.induct) (auto split: if_splits)

text \<open>
  What the code does when a player without running idle and without active action plays
  a non-empty clip once: one frame per tick while the clip plays, nothing at the tick
  that removes the action, and on exit the frame of \<^verbatim>\<open>_send_reset\<close>: zero for every
  blendshape name that is dirty or mentioned in the stored idle clip, Apply, and the
  bones of the rest pose. That frame is sent only when there is such a name; the bones
  of the clip are not in it. Both dirty-name sets are empty afterwards.
\<close>

lemma one_shot_action_then_reset:
  assumes "\<not> idle_active p" and "active_actions p = []"
    and "clip \<noteq> []" and "\<forall>f \<in> set clip. frame_t f \<noteq> None" and "frame_t (last clip) = Some D"
    and "\<forall>tk \<in> set playing. (tick_rd tk 0 - now) * 1000 < real_of_int D"
    and "(tick_rd tk1 0 - now) * 1000 \<ge> real_of_int D"
  shows "\<exists>q played names.
     render_loop rest_pose idle_epoch (playing @ tk1 # tk2 # tks) (play_action clip False now p) =
       Inr (q,
            played @
            (if names = [] then []
             else [map (\<lambda>n. BlendVal n 0) names @ [BlendApply] @ send_bone_loop rest_pose]),
            True) \<and>
     length played = length playing \<and>
     set names = set (dirty_blendshapes p) \<union> (\<Union>f \<in> set clip. set (dict_keys (get_blendshapes f)))
                 \<union> (\<Union>f \<in> set (idle_frames p). set (dict_keys (get_blendshapes f))) \<and>
     dirty_blendshapes q = [] \<and> dirty_bones q = [] \<and> active_actions q = [] \<and> \<not> running q"
proof -
  define a where "a = \<lparr>frames = clip, loop = False, start_time = now\<rparr>"
  define p1 where "p1 = play_action clip False now p"
  define names where "names = reset_names (p1\<lparr>active_actions := []\<rparr>)"
  define q where
    "q = p1\<lparr>active_actions := [], dirty_blendshapes := [], dirty_bones := [], running := False\<rparr>"
  have p1: "\<not> idle_active p1" "active_actions p1 = [a]" "running p1"
    using assms(1,2) by (simp_all add: p1_def play_action_def a_def)
  have a: "\<not> loop a" "frames a \<noteq> []" "\<forall>f \<in> set (frames a). frame_t f \<noteq> None"
    "frame_t (last (frames a)) = Some D"
    "\<forall>tk \<in> set playing. (tick_rd tk 0 - start_time a) * 1000 < real_of_int D"
    "(tick_rd tk1 0 - start_time a) * 1000 \<ge> real_of_int D"
    using assms(3-7) by (simp_all add: a_def)
  from render_loop_single_action[OF p1 a, of rest_pose idle_epoch tk2 tks]
  obtain played where
    rl: "render_loop rest_pose idle_epoch (playing @ tk1 # tk2 # tks) p1 =
       Inr (q,
            played @
            (if names = [] then []
             else [map (\<lambda>n. BlendVal n 0) names @ [BlendApply] @ send_bone_loop rest_pose]),
            True)"
    and len: "length played = length playing"
    unfolding q_def names_def by (auto split: if_splits)
  have "set (dirty_blendshapes p1) =
      set (dirty_blendshapes p) \<union> (\<Union>f \<in> set clip. set (dict_keys (get_blendshapes f)))"
    by (simp add: p1_def play_action_def set_fold_set_update)
  moreover have "idle_frames p1 = idle_frames p"
    by (simp add: p1_def play_action_def)
  ultimately have n: "set names =
      set (dirty_blendshapes p) \<union> (\<Union>f \<in> set clip. set (dict_keys (get_blendshapes f)))
       \<union> (\<Union>f \<in> set (idle_frames p). set (dict_keys (get_blendshapes f)))"
    by (simp add: names_def set_reset_names)
  have qf: "dirty_blendshapes q = []" "dirty_bones q = []" "active_actions q = []" "\<not> running q"
    by (simp_all add: q_def)
  from rl len n qf show ?thesis
    unfolding p1_def by blast
qed

text \<open>
  Claim C3 says that after a one-shot action has finished, with no other action and no
  idle, the next frame sent sets every blendshape name of the clip to 0 and every bone
  of the clip except \<^verbatim>\<open>Hips\<close> to the identity. The code keeps the dirty bone names for that
  reset, and its clean-up inside the loop does it while an idle frame is merged; on
  this path the merged frame is \<^verbatim>\<open>None\<close>, the clean-up is skipped and \<^verbatim>\<open>_send_reset\<close>
  clears the dirty bone names without sending them. The runs below show it. A clip
  with \<^verbatim>\<open>Joy\<close> and the bone \<^verbatim>\<open>Head\<close> at rotation \<open>(0, 0, 1, 0)\<close> is played from time 0 with
  ticks at 0.1 s, 1 s and 2 s: the first tick sends the clip's frame, the second sends
  nothing, the exit sends \<^verbatim>\<open>Joy = 0\<close> and the rest pose, and no message sets \<^verbatim>\<open>Head\<close> to
  the identity. A clip with the bone only gets no frame at all on exit.
\<close>

theorem reset_leaves_clip_bones:
  "render_loop DEFAULT_REST_POSE 0
     [\<lparr>tick_t0 = 1 / 10, tick_rd = steady_clock (1 / 10), tick_rs = steady_clock (1 / 10)\<rparr>,
      \<lparr>tick_t0 = 1, tick_rd = steady_clock 1, tick_rs = steady_clock 1\<rparr>,
      \<lparr>tick_t0 = 2, tick_rd = steady_clock 2, tick_rs = steady_clock 2\<rparr>]
     (play_action
        [\<lparr>frame_t = Some 200, blendshapes = Some [(''Joy'', 1)],
          bones = Some [(''Head'', \<lparr>pos = Some (0, 0, 0), rot = Some (0, 0, 1, 0)\<rparr>)]\<rparr>]
        False 0 new_player) =
   Inr (\<lparr>idle_frames = [], idle_active = False, idle_name = [], active_actions = [],
         dirty_blendshapes = [], dirty_bones = [], running = False\<rparr>,
        [[BlendVal ''Joy'' 1, BlendApply,
          BonePos ''LeftUpperArm'' 0 0 0 (0, 0, 5736 / 10000, 8192 / 10000),
          BonePos ''RightUpperArm'' 0 0 0 (0, 0, - (5736 / 10000), 8192 / 10000),
          BonePos ''LeftLowerArm'' 0 0 0 (0, 0, 436 / 10000, 9990 / 10000),
          BonePos ''RightLowerArm'' 0 0 0 (0, 0, - (436 / 10000), 9990 / 10000),
          BonePos ''Head'' 0 0 0 (0, 0, 1, 0)],
         [BlendVal ''Joy'' 0, BlendApply,
          BonePos ''LeftUpperArm'' 0 0 0 (0, 0, 5736 / 10000, 8192 / 10000),
          BonePos ''RightUpperArm'' 0 0 0 (0, 0, - (5736 / 10000), 8192 / 10000),
          BonePos ''LeftLowerArm'' 0 0 0 (0, 0, 436 / 10000, 9990 / 10000),
          BonePos ''RightLowerArm'' 0 0 0 (0, 0, - (436 / 10000), 9990 / 10000)]],
        True) \<and>
   BonePos ''Head'' 0 0 0 (0, 0, 0, 1) \<notin>
     set [BlendVal ''Joy'' 0, BlendApply,
          BonePos ''LeftUpperArm'' 0 0 0 (0, 0, 5736 / 10000, 8192 / 10000),
          BonePos ''RightUpperArm'' 0 0 0 (0, 0, - (5736 / 10000), 8192 / 10000),
          BonePos ''LeftLowerArm'' 0 0 0 (0, 0, 436 / 10000, 9990 / 10000),
          BonePos ''RightLowerArm'' 0 0 0 (0, 0, - (436 / 10000), 9990 / 10000)] \<and>
   render_loop DEFAULT_REST_POSE 0
     [\<lparr>tick_t0 = 1, tick_rd = steady_clock 1, tick_rs = steady_clock 1\<rparr>,
      \<lparr>tick_t0 = 2, tick_rd = steady_clock 2, tick_rs = steady_clock 2\<rparr>]
     (play_action
        [\<lparr>frame_t = Some 200, blendshapes = Some [],
          bones = Some [(''Head'', \<lparr>pos = Some (0, 0, 0), rot = Some (0, 0, 1, 0)\<rparr>)]\<rparr>]
        False 0 new_player) =
   Inr (\<lparr>idle_frames = [], idle_active = False, idle_name = [], active_actions = [],
         dirty_blendshapes = [], dirty_bones = [], running = False\<rparr>,
        [], True)"
  by (simp add: play_action_def new_player_def render_step_def get_active_action_frames_def
      merge_multiple_actions_def merge_layers_def truthy_def frame_nonempty_def empty_frame_def
      merged_ref_def write_back_def find_frame_def find_frame_index_def
      zero_dirty_blendshapes_def identity_dirty_bones_def
      finish_loop_def send_reset_def reset_names_def
      send_frame_def clamp_blendshapes_def cap_eye_blink_def EYE_BLINK_NAMES_def
      max_default_def EXPRESSIONS_AFFECTING_EYES_def dict_update_def
      dict_get_def set_update_def dict_keys_def get_blendshapes_def get_bones_def get_rot_def
      DEFAULT_REST_POSE_def Let_def)

end
